theory Spec2Isabelle
  imports Complex_Main "HOL-Library.Word" "HOL-Library.Sublist"
begin

section \<open>JavaScript values\<close>

text \<open>
  A JavaScript string is a sequence of UTF-16 code units. Only the URL is inspected
  character by character (by the regular expression of \<open>validateUrl\<close>), so URLs are
  kept as code-unit lists; paths, messages and option values are only compared and
  concatenated and are kept as HOL strings.
\<close>

type_synonym utf16 = "16 word"
type_synonym js_string = "utf16 list"

definition ascii :: "string \<Rightarrow> js_string" where
  "ascii s = map of_char s"

text \<open>
  JavaScript numbers, as far as the progress arithmetic needs them: \<open>NaN\<close>, the two
  infinities and the finite values. Rounding of finite values and the sign of zero are
  not modelled: a finite value is the exact rational.
\<close>

datatype jsnum = NaN | PosInf | NegInf | Num rat

fun js_add :: "jsnum \<Rightarrow> jsnum \<Rightarrow> jsnum" where
  "js_add (Num a) (Num b) = Num (a + b)"
| "js_add (Num a) PosInf = PosInf"
| "js_add (Num a) NegInf = NegInf"
| "js_add (Num a) NaN = NaN"
| "js_add PosInf (Num b) = PosInf"
| "js_add PosInf PosInf = PosInf"
| "js_add PosInf NegInf = NaN"
| "js_add PosInf NaN = NaN"
| "js_add NegInf (Num b) = NegInf"
| "js_add NegInf NegInf = NegInf"
| "js_add NegInf PosInf = NaN"
| "js_add NegInf NaN = NaN"
| "js_add NaN b = NaN"

fun js_div :: "jsnum \<Rightarrow> jsnum \<Rightarrow> jsnum" where
  "js_div (Num a) (Num b) =
     (if b = 0 then (if a = 0 then NaN else if 0 < a then PosInf else NegInf)
      else Num (a / b))"
| "js_div (Num a) PosInf = Num 0"
| "js_div (Num a) NegInf = Num 0"
| "js_div (Num a) NaN = NaN"
| "js_div PosInf (Num b) = (if 0 \<le> b then PosInf else NegInf)"
| "js_div PosInf PosInf = NaN"
| "js_div PosInf NegInf = NaN"
| "js_div PosInf NaN = NaN"
| "js_div NegInf (Num b) = (if 0 \<le> b then NegInf else PosInf)"
| "js_div NegInf PosInf = NaN"
| "js_div NegInf NegInf = NaN"
| "js_div NegInf NaN = NaN"
| "js_div NaN b = NaN"

fun js_mul :: "jsnum \<Rightarrow> jsnum \<Rightarrow> jsnum" where
  "js_mul (Num a) (Num b) = Num (a * b)"
| "js_mul (Num a) PosInf = (if a = 0 then NaN else if 0 < a then PosInf else NegInf)"
| "js_mul (Num a) NegInf = (if a = 0 then NaN else if 0 < a then NegInf else PosInf)"
| "js_mul (Num a) NaN = NaN"
| "js_mul PosInf (Num b) = (if b = 0 then NaN else if 0 < b then PosInf else NegInf)"
| "js_mul PosInf PosInf = PosInf"
| "js_mul PosInf NegInf = NegInf"
| "js_mul PosInf NaN = NaN"
| "js_mul NegInf (Num b) = (if b = 0 then NaN else if 0 < b then NegInf else PosInf)"
| "js_mul NegInf PosInf = NegInf"
| "js_mul NegInf NegInf = PosInf"
| "js_mul NegInf NaN = NaN"
| "js_mul NaN b = NaN"

text \<open>\<open>x || d\<close> on an optional string: \<open>undefined\<close> and the empty string are falsy.\<close>

definition or_else :: "string option \<Rightarrow> string \<Rightarrow> string" where
  "or_else x d = (case x of None \<Rightarrow> d | Some s \<Rightarrow> if s = [] then d else s)"

text \<open>\<open>x || d\<close> on an optional number: \<open>undefined\<close> and zero are falsy.\<close>

definition or_else_num :: "rat option \<Rightarrow> rat \<Rightarrow> rat" where
  "or_else_num x d = (case x of None \<Rightarrow> d | Some n \<Rightarrow> if n = 0 then d else n)"

text \<open>
  \<open>parseInt(s)\<close> without a radix: leading white space, an optional sign, an optional
  \<open>0x\<close> prefix selecting radix 16, then the longest run of digits; \<open>NaN\<close> when
  that run is empty.
\<close>

definition is_space :: "char \<Rightarrow> bool" where
  "is_space c = (of_char c \<in> {9, 10, 11, 12, 13, 32, 160 :: nat})"

definition digit_val :: "nat \<Rightarrow> char \<Rightarrow> nat option" where
  "digit_val radix c =
     (let n = of_char c :: nat;
          v = (if 48 \<le> n \<and> n \<le> 57 then Some (n - 48)
               else if 97 \<le> n \<and> n \<le> 122 then Some (n - 87)
               else if 65 \<le> n \<and> n \<le> 90 then Some (n - 55)
               else None)
      in case v of None \<Rightarrow> None | Some d \<Rightarrow> if d < radix then Some d else None)"

definition digits_value :: "nat \<Rightarrow> string \<Rightarrow> nat" where
  "digits_value radix ds = foldl (\<lambda>acc c. acc * radix + the (digit_val radix c)) 0 ds"

definition parseInt :: "string \<Rightarrow> jsnum" where
  "parseInt s =
     (let s1 = dropWhile is_space s;
          neg = (case s1 of c # _ \<Rightarrow> c = CHR ''-'' | [] \<Rightarrow> False);
          s2 = (case s1 of c # r \<Rightarrow> if c = CHR ''-'' \<or> c = CHR ''+'' then r else s1 | [] \<Rightarrow> s1);
          hex = (take 2 s2 = ''0x'' \<or> take 2 s2 = ''0X'');
          radix = (if hex then 16 else 10);
          s3 = (if hex then drop 2 s2 else s2);
          ds = takeWhile (\<lambda>c. digit_val radix c \<noteq> None) s3
      in if ds = [] then NaN
         else Num (if neg then - of_nat (digits_value radix ds) else of_nat (digits_value radix ds)))"

text \<open>
  Number to string conversion of a non-negative integer, as a template literal does it
  for the integers below \<open>10^21\<close> (clock readings are far below that).
\<close>

definition digit_char :: "nat \<Rightarrow> char" where
  "digit_char d = ''0123456789'' ! d"

fun string_of_nat :: "nat \<Rightarrow> string" where
  "string_of_nat n =
     (if n < 10 then [digit_char n] else string_of_nat (n div 10) @ [digit_char (n mod 10)])"

declare string_of_nat.simps [simp del]

text \<open>\<open>xs.join(sep)\<close>.\<close>

fun join :: "string \<Rightarrow> string list \<Rightarrow> string" where
  "join sep [] = []"
| "join sep [x] = x"
| "join sep (x # y # ys) = x @ sep @ join sep (y # ys)"

section \<open>Errors\<close>

text \<open>
  What the code throws: a plain \<open>Error\<close> with its message, the \<open>CleanupError\<close> of
  fileManager.ts with the list of collected errors, or (from a library) a value that is
  not an \<open>Error\<close> instance.
\<close>

datatype error = Error string | CleanupError "error list" | Thrown string

fun message :: "error \<Rightarrow> string" where
  "message (Error m) = m"
| "message (CleanupError es) =
     ''Multiple errors occurred during cleanup:'' @ [CHR 0x0A] @
     join [CHR 0x0A] (map (\<lambda>e. ''- '' @ message e) es)"
| "message (Thrown v) = []"

text \<open>\<open>error instanceof Error ? error.message : 'Unknown error'\<close>\<close>

definition describe :: "error \<Rightarrow> string" where
  "describe e = (case e of Thrown _ \<Rightarrow> ''Unknown error'' | _ \<Rightarrow> message e)"

section \<open>Regular expressions\<close>

text \<open>
  The fragment of JavaScript regular expressions that \<open>validateUrl\<close> uses: literal
  code units, \<open>.\<close> (any code unit but a line terminator), sequence, alternation,
  \<open>?\<close> and \<open>+\<close>. \<open>rx_test\<close> is \<open>RegExp.prototype.test\<close> for a pattern
  anchored by \<open>^\<close> and \<open>$\<close> (no flags): the whole string has to match. Matching is
  by derivatives.
\<close>

datatype rx = Nomatch | Empty | Lit utf16 | Dot | Seq rx rx | Alt rx rx | Opt rx | Plus rx

definition line_terminator :: "utf16 \<Rightarrow> bool" where
  "line_terminator c = (c = 0x000A \<or> c = 0x000D \<or> c = 0x2028 \<or> c = 0x2029)"

fun nullable :: "rx \<Rightarrow> bool" where
  "nullable Nomatch = False"
| "nullable Empty = True"
| "nullable (Lit c) = False"
| "nullable Dot = False"
| "nullable (Seq r s) = (nullable r \<and> nullable s)"
| "nullable (Alt r s) = (nullable r \<or> nullable s)"
| "nullable (Opt r) = True"
| "nullable (Plus r) = nullable r"

fun deriv :: "utf16 \<Rightarrow> rx \<Rightarrow> rx" where
  "deriv c Nomatch = Nomatch"
| "deriv c Empty = Nomatch"
| "deriv c (Lit a) = (if a = c then Empty else Nomatch)"
| "deriv c Dot = (if line_terminator c then Nomatch else Empty)"
| "deriv c (Seq r s) =
     (if nullable r then Alt (Seq (deriv c r) s) (deriv c s) else Seq (deriv c r) s)"
| "deriv c (Alt r s) = Alt (deriv c r) (deriv c s)"
| "deriv c (Opt r) = deriv c r"
| "deriv c (Plus r) = Seq (deriv c r) (Opt (Plus r))"

definition rx_test :: "rx \<Rightarrow> js_string \<Rightarrow> bool" where
  "rx_test r s = nullable (foldl (\<lambda>r c. deriv c r) r s)"

fun lits :: "js_string \<Rightarrow> rx" where
  "lits [] = Empty"
| "lits (c # cs) = Seq (Lit c) (lits cs)"

text \<open>
  What a pattern denotes, independently of the matcher: the strings it matches as a
  whole.
\<close>

inductive matches :: "rx \<Rightarrow> js_string \<Rightarrow> bool" where
  m_Empty: "matches Empty []"
| m_Lit: "matches (Lit c) [c]"
| m_Dot: "\<not> line_terminator c \<Longrightarrow> matches Dot [c]"
| m_Seq: "matches r u \<Longrightarrow> matches s v \<Longrightarrow> matches (Seq r s) (u @ v)"
| m_AltL: "matches r w \<Longrightarrow> matches (Alt r s) w"
| m_AltR: "matches s w \<Longrightarrow> matches (Alt r s) w"
| m_OptN: "matches (Opt r) []"
| m_OptS: "matches r w \<Longrightarrow> matches (Opt r) w"
| m_Plus1: "matches r w \<Longrightarrow> matches (Plus r) w"
| m_PlusS: "matches r u \<Longrightarrow> matches (Plus r) v \<Longrightarrow> matches (Plus r) (u @ v)"

section \<open>YoutubeStreamManager (youtubeStreamManager.ts)\<close>

text \<open>\<open>/^(https?:\/\/)?(www\.)?(youtube\.com|youtu\.be)\/.+$/\<close>\<close>

definition youtubeRegex :: rx where
  "youtubeRegex =
     Seq (Opt (Seq (lits (ascii ''http'')) (Seq (Opt (Lit (of_char CHR ''s''))) (lits (ascii ''://'')))))
    (Seq (Opt (lits (ascii ''www.'')))
    (Seq (Alt (lits (ascii ''youtube.com'')) (lits (ascii ''youtu.be'')))
    (Seq (Lit (of_char CHR ''/''))
         (Plus Dot))))"

text \<open>\<open>validateUrl\<close>: throws on the empty string, otherwise the result of the test.\<close>

definition validateUrl :: "js_string \<Rightarrow> error + bool" where
  "validateUrl url =
     (if url = [] then Inl (Error ''URL cannot be empty or undefined'')
      else Inr (rx_test youtubeRegex url))"

text \<open>
  The accepted URL shape, written out: an optional \<open>http://\<close> or \<open>https://\<close>, an
  optional \<open>www.\<close>, the host \<open>youtube.com\<close> or \<open>youtu.be\<close>, a slash, and at
  least one more code unit, none of them a line terminator.
\<close>

definition accepted_shape :: "js_string \<Rightarrow> bool" where
  "accepted_shape url =
     (\<exists>scheme www host rest.
        url = scheme @ www @ host @ ascii ''/'' @ rest \<and>
        scheme \<in> {[], ascii ''http://'', ascii ''https://''} \<and>
        www \<in> {[], ascii ''www.''} \<and>
        host \<in> {ascii ''youtube.com'', ascii ''youtu.be''} \<and>
        rest \<noteq> [] \<and> (\<forall>c\<in>set rest. \<not> line_terminator c))"

section \<open>The world outside the program\<close>

text \<open>
  Paths are lists of components (\<open>path.join(dir, name)\<close> appends one component); the
  file system is the list of the entries that exist, each a file or a directory.
\<close>

type_synonym path = "string list"

datatype node = File | Dir

definition render :: "path \<Rightarrow> string" where
  "render p = concat (map (\<lambda>c. CHR ''/'' # c) p)"

text \<open>A format descriptor of ytdl-core, with the fields the program reads.\<close>

record videoFormat =
  itag :: nat
  qualityLabel :: "string option"
  hasAudio :: bool
  hasVideo :: bool
  container :: "string option"
  contentLength :: "string option"

text \<open>
  An ffmpeg command as fluent-ffmpeg builds it: its inputs (a live stream, named by the
  format it downloads, or a file), the codec, bitrate and frame-rate directives, the
  raw output options, the container format and the path given to \<open>save\<close>.
\<close>

datatype ffmpeg_input = StreamInput videoFormat | FileInput path

record ffmpeg_command =
  cmd_inputs :: "ffmpeg_input list"
  cmd_videoCodec :: "string option"
  cmd_videoBitrate :: "string option"
  cmd_fps :: "rat option"
  cmd_audioCodec :: "string option"
  cmd_audioBitrate :: "string option"
  cmd_outputOptions :: "string list"
  cmd_format :: "string option"
  cmd_output :: path

definition ffmpeg :: "ffmpeg_input list \<Rightarrow> ffmpeg_command" where
  "ffmpeg ins = \<lparr>cmd_inputs = ins, cmd_videoCodec = None, cmd_videoBitrate = None,
     cmd_fps = None, cmd_audioCodec = None, cmd_audioBitrate = None,
     cmd_outputOptions = [], cmd_format = None, cmd_output = []\<rparr>"

text \<open>
  Every call that leaves the process is logged, in order: the network requests of
  ytdl-core, the file-system calls, and the ffmpeg processes started.
\<close>

datatype io_call =
    NetGetBasicInfo js_string
  | NetGetInfo js_string
  | NetDownload js_string videoFormat
  | FsMkdir path
  | FsExists path
  | FsUnlink path
  | FsReaddir path
  | FsRm path
  | FsRmdir path
  | Ffmpeg ffmpeg_command

text \<open>
  An ffmpeg process is running until it emits \<open>end\<close> or \<open>error\<close>; \<open>Killed\<close> is
  the state after \<open>command.kill()\<close> or after its input stream was destroyed.
\<close>

datatype job_status = Running | Ended | Failed | Killed

record world =
  fs :: "(path \<times> node) list"
  calls :: "io_call list"
  jobs :: "(ffmpeg_command \<times> job_status) list"

definition log_call :: "io_call \<Rightarrow> world \<Rightarrow> world" where
  "log_call c w = w\<lparr>calls := calls w @ [c]\<rparr>"

text \<open>The directories that a log asks the file system to create, in order.\<close>

definition mkdirs :: "io_call list \<Rightarrow> path list" where
  "mkdirs cs = concat (map (\<lambda>c. case c of FsMkdir p \<Rightarrow> [p] | _ \<Rightarrow> []) cs)"

text \<open>\<open>catch (error) { throw new Error(`<prefix>${message or 'Unknown error'}`) }\<close>\<close>

definition rethrow :: "string \<Rightarrow> (error + 'a) \<times> world \<Rightarrow> (error + 'a) \<times> world" where
  "rethrow pfx r =
     (case r of (Inl e, w) \<Rightarrow> (Inl (Error (pfx @ describe e)), w) | (Inr v, w) \<Rightarrow> (Inr v, w))"

subsection \<open>ytdl-core\<close>

text \<open>
  The library is a parameter: what the two metadata requests return or throw, and what
  \<open>chooseFormat\<close> (a local computation, no request) selects or throws.
\<close>

record videoDetails =
  vd_title :: string
  vd_thumbnails :: "string list"
  vd_lengthSeconds :: string
  vd_author_name :: string

record ytdl_info =
  info_videoDetails :: "videoDetails option"
  info_formats :: "videoFormat list option"

record ytdl =
  getBasicInfo :: "js_string \<Rightarrow> error + ytdl_info"
  getInfo :: "js_string \<Rightarrow> error + ytdl_info"
  chooseFormat :: "videoFormat list \<Rightarrow> string \<Rightarrow> error + videoFormat option"

subsection \<open>getVideoInfo\<close>

record VideoInfo =
  vi_title :: string
  vi_thumbnail :: string
  vi_duration :: string
  vi_author :: string

definition getVideoInfo :: "ytdl \<Rightarrow> js_string \<Rightarrow> world \<Rightarrow> (error + VideoInfo) \<times> world" where
  "getVideoInfo y url w = rethrow ''Failed to get video info: ''
     (case validateUrl url of
        Inl e \<Rightarrow> (Inl e, w)
      | Inr False \<Rightarrow> (Inl (Error ''Invalid YouTube URL provided''), w)
      | Inr True \<Rightarrow>
          (let w1 = log_call (NetGetBasicInfo url) w in
           case getBasicInfo y url of
             Inl e \<Rightarrow> (Inl e, w1)
           | Inr info \<Rightarrow>
               (case info_videoDetails info of
                  None \<Rightarrow> (Inl (Error ''Failed to fetch video details''), w1)
                | Some d \<Rightarrow>
                    (Inr \<lparr>vi_title = vd_title d,
                          vi_thumbnail = (case vd_thumbnails d of [] \<Rightarrow> [] | t # _ \<Rightarrow> t),
                          vi_duration = vd_lengthSeconds d,
                          vi_author = vd_author_name d\<rparr>, w1))))"

subsection \<open>getAvailableFormats\<close>

record FormatInfo =
  fi_itag :: nat
  fi_quality :: string
  fi_hasAudio :: bool
  fi_hasVideo :: bool
  fi_container :: string
  fi_contentLength :: string

definition getAvailableFormats ::
  "ytdl \<Rightarrow> js_string \<Rightarrow> world \<Rightarrow> (error + FormatInfo list) \<times> world" where
  "getAvailableFormats y url w = rethrow ''Failed to get video formats: ''
     (case validateUrl url of
        Inl e \<Rightarrow> (Inl e, w)
      | Inr False \<Rightarrow> (Inl (Error ''Invalid YouTube URL provided''), w)
      | Inr True \<Rightarrow>
          (let w1 = log_call (NetGetInfo url) w in
           case getInfo y url of
             Inl e \<Rightarrow> (Inl e, w1)
           | Inr info \<Rightarrow>
               (case info_formats info of
                  None \<Rightarrow> (Inl (Error ''No formats available for this video''), w1)
                | Some fmts \<Rightarrow>
                    (Inr (map (\<lambda>f. \<lparr>fi_itag = itag f,
                                     fi_quality = or_else (qualityLabel f) ''unknown'',
                                     fi_hasAudio = hasAudio f,
                                     fi_hasVideo = hasVideo f,
                                     fi_container = or_else (container f) ''unknown'',
                                     fi_contentLength = or_else (contentLength f) ''0''\<rparr>) fmts),
                     w1))))"

subsection \<open>createProgressTrackingStream\<close>

text \<open>
  The stream manager's progress event, and the stream that
  \<open>createProgressTrackingStream\<close> returns: the total it was given, whether a
  \<open>data\<close> listener was attached (a progress callback was supplied), and the
  \<open>downloadedBytes\<close> variable that the listener's closure captures. Each call declares
  its own \<open>let downloadedBytes = 0\<close>.
\<close>

record DownloadProgress =
  dp_downloadedBytes :: nat
  dp_totalBytes :: jsnum
  dp_percentage :: jsnum

record readable =
  rd_format :: videoFormat
  rd_totalBytes :: jsnum
  rd_listening :: bool
  rd_downloadedBytes :: nat
  rd_destroyed :: bool

definition createProgressTrackingStream ::
  "js_string \<Rightarrow> videoFormat \<Rightarrow> jsnum \<Rightarrow> bool \<Rightarrow> world \<Rightarrow> readable \<times> world" where
  "createProgressTrackingStream url format totalBytes onProgress w =
     (\<lparr>rd_format = format, rd_totalBytes = totalBytes, rd_listening = onProgress,
       rd_downloadedBytes = 0, rd_destroyed = False\<rparr>,
      log_call (NetDownload url format) w)"

text \<open>
  The \<open>data\<close> listener of one stream, run on a chunk of the given length: it adds the
  length to the stream's own counter and calls the progress callback.
\<close>

definition on_data :: "nat \<Rightarrow> readable \<Rightarrow> readable \<times> DownloadProgress list" where
  "on_data len s =
     (if rd_listening s then
        (let n = rd_downloadedBytes s + len in
         (s\<lparr>rd_downloadedBytes := n\<rparr>,
          [\<lparr>dp_downloadedBytes = n, dp_totalBytes = rd_totalBytes s,
            dp_percentage = js_mul (js_div (Num (of_nat n)) (rd_totalBytes s)) (Num 100)\<rparr>]))
      else (s, []))"

subsection \<open>createStreams\<close>

record StreamOptions =
  so_quality :: "string option"
  so_format :: "string option"

record Streams =
  st_videoStream :: readable
  st_audioStream :: readable
  st_totalBytes :: jsnum

definition createStreams ::
  "ytdl \<Rightarrow> js_string \<Rightarrow> StreamOptions \<Rightarrow> bool \<Rightarrow> world \<Rightarrow> (error + Streams) \<times> world" where
  "createStreams y url options onProgress w = rethrow ''Failed to create streams: ''
     (case validateUrl url of
        Inl e \<Rightarrow> (Inl e, w)
      | Inr False \<Rightarrow> (Inl (Error ''Invalid YouTube URL provided''), w)
      | Inr True \<Rightarrow>
          (let w1 = log_call (NetGetInfo url) w in
           case getInfo y url of
             Inl e \<Rightarrow> (Inl e, w1)
           | Inr info \<Rightarrow>
               (case info_formats info of
                  None \<Rightarrow>
                    (Inl (Error ''Cannot read properties of undefined (reading 'filter')''), w1)
                | Some fmts \<Rightarrow>
                    (case chooseFormat y (filter hasVideo fmts) (or_else (so_quality options) ''highest'') of
                       Inl e \<Rightarrow> (Inl e, w1)
                     | Inr vf \<Rightarrow>
                         (case chooseFormat y (filter hasAudio fmts) ''highestaudio'' of
                            Inl e \<Rightarrow> (Inl e, w1)
                          | Inr af \<Rightarrow>
                              (case (vf, af) of
                                 (Some videoFormat, Some audioFormat) \<Rightarrow>
                                   (let total = js_add (parseInt (or_else (contentLength videoFormat) ''0''))
                                                       (parseInt (or_else (contentLength audioFormat) ''0''));
                                        (vs, w2) = createProgressTrackingStream url videoFormat total onProgress w1;
                                        (as, w3) = createProgressTrackingStream url audioFormat total onProgress w2
                                    in (Inr \<lparr>st_videoStream = vs, st_audioStream = as, st_totalBytes = total\<rparr>, w3))
                               | _ \<Rightarrow> (Inl (Error ''Could not find suitable video/audio formats''), w1)))))))"

text \<open>
  The \<open>data\<close> events of a run, in the order in which the event loop delivers them:
  each names the stream it belongs to and the chunk's length. The progress events that
  reach the callback are those of the listeners, in that order.
\<close>

datatype track = Video | Audio

fun deliver :: "(track \<times> nat) list \<Rightarrow> readable \<Rightarrow> readable \<Rightarrow> DownloadProgress list" where
  "deliver [] vs as = []"
| "deliver ((Video, len) # evs) vs as =
     (case on_data len vs of (vs', out) \<Rightarrow> out @ deliver evs vs' as)"
| "deliver ((Audio, len) # evs) vs as =
     (case on_data len as of (as', out) \<Rightarrow> out @ deliver evs vs as')"

section \<open>The file system\<close>

text \<open>
  Calls of \<open>fs\<close> and \<open>fs.promises\<close>. A call can fail for a reason outside the model
  (permissions, a busy file, a full disk): \<open>fs_env\<close> says for which paths, and with
  which message. The other failures follow from the entries: unlinking a directory,
  reading a file as a directory, removing a directory that has entries.
\<close>

record fs_env =
  mkdir_error :: "path \<Rightarrow> string option"
  unlink_error :: "path \<Rightarrow> string option"
  readdir_error :: "path \<Rightarrow> string option"
  rm_error :: "path \<Rightarrow> string option"
  rmdir_error :: "path \<Rightarrow> string option"

definition fs_exists :: "(path \<times> node) list \<Rightarrow> path \<Rightarrow> bool" where
  "fs_exists f p = (map_of f p \<noteq> None)"

definition fs_remove :: "path \<Rightarrow> (path \<times> node) list \<Rightarrow> (path \<times> node) list" where
  "fs_remove p f = filter (\<lambda>e. fst e \<noteq> p) f"

text \<open>The names of the entries of a directory: the next component of everything below it.\<close>

definition fs_children :: "(path \<times> node) list \<Rightarrow> path \<Rightarrow> string list" where
  "fs_children f d = remdups (map (\<lambda>e. fst e ! length d) (filter (\<lambda>e. strict_prefix d (fst e)) f))"

text \<open>\<open>fs.promises.mkdir(p, { recursive: true })\<close>\<close>

definition fs_mkdir_p :: "fs_env \<Rightarrow> path \<Rightarrow> (path \<times> node) list \<Rightarrow> error + (path \<times> node) list" where
  "fs_mkdir_p env p f =
     (case mkdir_error env p of
        Some m \<Rightarrow> Inl (Error m)
      | None \<Rightarrow>
          if list_ex (\<lambda>q. map_of f q = Some File) (prefixes p)
          then Inl (Error (''EEXIST: file already exists, mkdir '' @ render p))
          else Inr (f @ map (\<lambda>q. (q, Dir)) (filter (\<lambda>q. q \<noteq> [] \<and> map_of f q = None) (prefixes p))))"

text \<open>\<open>fs.promises.unlink(p)\<close>\<close>

definition fs_unlink :: "fs_env \<Rightarrow> path \<Rightarrow> (path \<times> node) list \<Rightarrow> error + (path \<times> node) list" where
  "fs_unlink env p f =
     (case unlink_error env p of
        Some m \<Rightarrow> Inl (Error m)
      | None \<Rightarrow>
          (case map_of f p of
             None \<Rightarrow> Inl (Error (''ENOENT: no such file or directory, unlink '' @ render p))
           | Some Dir \<Rightarrow> Inl (Error (''EISDIR: illegal operation on a directory, unlink '' @ render p))
           | Some File \<Rightarrow> Inr (fs_remove p f)))"

text \<open>\<open>fs.promises.readdir(d)\<close>\<close>

definition fs_readdir :: "fs_env \<Rightarrow> path \<Rightarrow> (path \<times> node) list \<Rightarrow> error + string list" where
  "fs_readdir env d f =
     (case readdir_error env d of
        Some m \<Rightarrow> Inl (Error m)
      | None \<Rightarrow>
          (case map_of f d of
             None \<Rightarrow> Inl (Error (''ENOENT: no such file or directory, scandir '' @ render d))
           | Some File \<Rightarrow> Inl (Error (''ENOTDIR: not a directory, scandir '' @ render d))
           | Some Dir \<Rightarrow> Inr (fs_children f d)))"

text \<open>\<open>fs.promises.rm(d, { recursive: true, force: true })\<close>: the entry and all below it.\<close>

definition fs_rm_rf :: "fs_env \<Rightarrow> path \<Rightarrow> (path \<times> node) list \<Rightarrow> error + (path \<times> node) list" where
  "fs_rm_rf env d f =
     (case rm_error env d of
        Some m \<Rightarrow> Inl (Error m)
      | None \<Rightarrow> Inr (filter (\<lambda>e. \<not> prefix d (fst e)) f))"

text \<open>\<open>fs.promises.rmdir(d)\<close>\<close>

definition fs_rmdir :: "fs_env \<Rightarrow> path \<Rightarrow> (path \<times> node) list \<Rightarrow> error + (path \<times> node) list" where
  "fs_rmdir env d f =
     (case rmdir_error env d of
        Some m \<Rightarrow> Inl (Error m)
      | None \<Rightarrow>
          (case map_of f d of
             None \<Rightarrow> Inl (Error (''ENOENT: no such file or directory, rmdir '' @ render d))
           | Some File \<Rightarrow> Inl (Error (''ENOTDIR: not a directory, rmdir '' @ render d))
           | Some Dir \<Rightarrow>
               if fs_children f d \<noteq> []
               then Inl (Error (''ENOTEMPTY: directory not empty, rmdir '' @ render d))
               else Inr (fs_remove d f)))"

text \<open>\<open>fs.existsSync(p)\<close>, logged.\<close>

definition existsSync :: "path \<Rightarrow> world \<Rightarrow> bool \<times> world" where
  "existsSync p w = (fs_exists (fs w) p, log_call (FsExists p) w)"

section \<open>FileManager (fileManager.ts)\<close>

record TemporaryPaths =
  tempDir :: path
  videoPath :: path
  audioPath :: path

record FileManager =
  timestamp :: nat
  baseTempDir :: path

text \<open>
  The constructor reads the clock (\<open>Date.now()\<close>, milliseconds) and \<open>os.tmpdir()\<close>;
  both are arguments here.
\<close>

definition new_FileManager :: "path \<Rightarrow> nat \<Rightarrow> string \<Rightarrow> FileManager" where
  "new_FileManager tmpdir now pfx =
     \<lparr>timestamp = now, baseTempDir = tmpdir @ [pfx @ ''_'' @ string_of_nat now]\<rparr>"

definition createTemporaryPaths ::
  "FileManager \<Rightarrow> fs_env \<Rightarrow> world \<Rightarrow> (error + TemporaryPaths) \<times> world" where
  "createTemporaryPaths fm env w = rethrow ''Failed to create temporary paths: ''
     (let w1 = log_call (FsMkdir (baseTempDir fm)) w in
      case fs_mkdir_p env (baseTempDir fm) (fs w1) of
        Inl e \<Rightarrow> (Inl e, w1)
      | Inr f \<Rightarrow>
          (case existsSync (baseTempDir fm) (w1\<lparr>fs := f\<rparr>) of
             (False, w2) \<Rightarrow>
               (Inl (Error (''Failed to create temporary directory: '' @ render (baseTempDir fm))), w2)
           | (True, w2) \<Rightarrow>
               (Inr \<lparr>tempDir = baseTempDir fm,
                     videoPath = baseTempDir fm @ [''temp_video_'' @ string_of_nat (timestamp fm) @ ''.mp4''],
                     audioPath = baseTempDir fm @ [''temp_audio_'' @ string_of_nat (timestamp fm) @ ''.aac'']\<rparr>,
                w2)))"

text \<open>\<open>verifyTemporaryFiles\<close>: the loop over the two files, stopping at the first missing one.\<close>

fun verify_files :: "(path \<times> string) list \<Rightarrow> world \<Rightarrow> (error + unit) \<times> world" where
  "verify_files [] w = (Inr (), w)"
| "verify_files ((p, name) # rest) w =
     (case existsSync p w of
        (False, w1) \<Rightarrow> (Inl (Error (name @ '' not found at '' @ render p)), w1)
      | (True, w1) \<Rightarrow> verify_files rest w1)"

definition verifyTemporaryFiles :: "TemporaryPaths \<Rightarrow> world \<Rightarrow> (error + unit) \<times> world" where
  "verifyTemporaryFiles paths w =
     verify_files [(videoPath paths, ''Temporary video file''),
                   (audioPath paths, ''Temporary audio file'')] w"

definition verifyOutputFile :: "path \<Rightarrow> world \<Rightarrow> (error + unit) \<times> world" where
  "verifyOutputFile outputPath w =
     (case existsSync outputPath w of
        (False, w1) \<Rightarrow> (Inl (Error (''Output file not found at '' @ render outputPath)), w1)
      | (True, w1) \<Rightarrow> (Inr (), w1))"

text \<open>
  \<open>cleanupTemporaryFiles\<close>. The first loop: each file that exists is unlinked, a
  failure is pushed on \<open>errors\<close> and the loop goes on.
\<close>

fun delete_files :: "fs_env \<Rightarrow> path list \<Rightarrow> error list \<Rightarrow> world \<Rightarrow> error list \<times> world" where
  "delete_files env [] errors w = (errors, w)"
| "delete_files env (filePath # rest) errors w =
     (case existsSync filePath w of
        (False, w1) \<Rightarrow> delete_files env rest errors w1
      | (True, w1) \<Rightarrow>
          (let w2 = log_call (FsUnlink filePath) w1 in
           case fs_unlink env filePath (fs w2) of
             Inl e \<Rightarrow>
               delete_files env rest
                 (errors @ [Error (''Failed to delete temporary file '' @ render filePath @ '': '' @ describe e)])
                 w2
           | Inr f \<Rightarrow> delete_files env rest errors (w2\<lparr>fs := f\<rparr>)))"

text \<open>The second part: the directory, removed recursively when it still has entries.\<close>

definition remove_directory :: "fs_env \<Rightarrow> path \<Rightarrow> world \<Rightarrow> (error + unit) \<times> world" where
  "remove_directory env d w =
     (case existsSync d w of
        (False, w1) \<Rightarrow> (Inr (), w1)
      | (True, w1) \<Rightarrow>
          (let w2 = log_call (FsReaddir d) w1 in
           case fs_readdir env d (fs w2) of
             Inl e \<Rightarrow> (Inl e, w2)
           | Inr dirContents \<Rightarrow>
               if length dirContents > 0 then
                 (let w3 = log_call (FsRm d) w2 in
                  case fs_rm_rf env d (fs w3) of
                    Inl e \<Rightarrow> (Inl e, w3)
                  | Inr f \<Rightarrow> (Inr (), w3\<lparr>fs := f\<rparr>))
               else
                 (let w3 = log_call (FsRmdir d) w2 in
                  case fs_rmdir env d (fs w3) of
                    Inl e \<Rightarrow> (Inl e, w3)
                  | Inr f \<Rightarrow> (Inr (), w3\<lparr>fs := f\<rparr>))))"

definition cleanupTemporaryFiles :: "fs_env \<Rightarrow> TemporaryPaths \<Rightarrow> world \<Rightarrow> (error + unit) \<times> world" where
  "cleanupTemporaryFiles env paths w =
     (case delete_files env [videoPath paths, audioPath paths] [] w of
        (errors1, w1) \<Rightarrow>
          (case remove_directory env (tempDir paths) w1 of
             (r, w2) \<Rightarrow>
               (let errors = (case r of
                                Inl e \<Rightarrow> errors1 @ [Error (''Failed to remove temporary directory '' @
                                                             render (tempDir paths) @ '': '' @ describe e)]
                              | Inr _ \<Rightarrow> errors1)
                in if length errors > 0 then (Inl (CleanupError errors), w2) else (Inr (), w2))))"

section \<open>MediaProcessor (mediaManager.ts, the second class in youtubeStreamManager.ts)\<close>

text \<open>
  The transcoding backend is a parameter: for each command, whether the process ends
  with \<open>end\<close> or with \<open>error\<close> (and the error's message), and whether its output
  file is on disk when the program next looks. \<open>video_first\<close> says which of the two
  concurrent processes of \<open>processMedia\<close> settles first. Backend progress ticks are
  only forwarded to an optional callback that \<open>downloadVideo\<close> never supplies; they
  are left out.
\<close>

record job =
  job_result :: "string + unit"
  job_writes :: bool

record backend =
  run :: "ffmpeg_command \<Rightarrow> job"
  video_first :: bool

record ProcessingOptions =
  po_videoCodec :: "string option"
  po_audioCodec :: "string option"
  po_outputFormat :: "string option"
  po_videoBitrate :: "string option"
  po_audioBitrate :: "string option"
  po_fps :: "rat option"

definition touch :: "path \<Rightarrow> (path \<times> node) list \<Rightarrow> (path \<times> node) list" where
  "touch p f = (if fs_exists f p then f else f @ [(p, File)])"

definition set_status ::
  "ffmpeg_command \<Rightarrow> job_status \<Rightarrow> (ffmpeg_command \<times> job_status) list \<Rightarrow> (ffmpeg_command \<times> job_status) list" where
  "set_status cmd st js = map (\<lambda>(c, s). if c = cmd \<and> s = Running then (c, st) else (c, s)) js"

text \<open>\<open>command.save(outputPath)\<close> starts the process.\<close>

definition spawn :: "ffmpeg_command \<Rightarrow> world \<Rightarrow> world" where
  "spawn cmd w = w\<lparr>calls := calls w @ [Ffmpeg cmd], jobs := jobs w @ [(cmd, Running)]\<rparr>"

text \<open>What a process that has not settled has put on disk so far.\<close>

definition written_so_far :: "backend \<Rightarrow> ffmpeg_command \<Rightarrow> world \<Rightarrow> world" where
  "written_so_far be cmd w =
     (if job_writes (run be cmd) then w\<lparr>fs := touch (cmd_output cmd) (fs w)\<rparr> else w)"

text \<open>
  The \<open>end\<close> and \<open>error\<close> handlers: the promise resolves, or rejects with
  \<open>new Error(`<stage> failed: ${err.message}`)\<close>.
\<close>

definition settle :: "backend \<Rightarrow> string \<Rightarrow> ffmpeg_command \<Rightarrow> world \<Rightarrow> (error + unit) \<times> world" where
  "settle be pfx cmd w =
     (let w1 = written_so_far be cmd w in
      case job_result (run be cmd) of
        Inl m \<Rightarrow> (Inl (Error (pfx @ m)), w1\<lparr>jobs := set_status cmd Failed (jobs w1)\<rparr>)
      | Inr _ \<Rightarrow> (Inr (), w1\<lparr>jobs := set_status cmd Ended (jobs w1)\<rparr>))"

definition video_command :: "readable \<Rightarrow> path \<Rightarrow> ProcessingOptions \<Rightarrow> ffmpeg_command" where
  "video_command videoStream outputPath options =
     (ffmpeg [StreamInput (rd_format videoStream)])
       \<lparr>cmd_videoCodec := Some (or_else (po_videoCodec options) ''copy''),
        cmd_videoBitrate := Some (or_else (po_videoBitrate options) ''1000k''),
        cmd_fps := Some (or_else_num (po_fps options) 30),
        cmd_output := outputPath\<rparr>"

definition audio_command :: "readable \<Rightarrow> path \<Rightarrow> ProcessingOptions \<Rightarrow> ffmpeg_command" where
  "audio_command audioStream outputPath options =
     (ffmpeg [StreamInput (rd_format audioStream)])
       \<lparr>cmd_audioCodec := Some (or_else (po_audioCodec options) ''aac''),
        cmd_audioBitrate := Some (or_else (po_audioBitrate options) ''128k''),
        cmd_output := outputPath\<rparr>"

definition combine_command :: "path \<Rightarrow> path \<Rightarrow> path \<Rightarrow> ProcessingOptions \<Rightarrow> ffmpeg_command" where
  "combine_command vPath aPath outputPath options =
     (ffmpeg [FileInput vPath, FileInput aPath])
       \<lparr>cmd_outputOptions := [''-c:v copy'', ''-c:a copy''],
        cmd_format := Some (or_else (po_outputFormat options) ''matroska''),
        cmd_output := outputPath\<rparr>"

definition processVideoStream ::
  "backend \<Rightarrow> readable \<Rightarrow> path \<Rightarrow> ProcessingOptions \<Rightarrow> world \<Rightarrow> (error + unit) \<times> world" where
  "processVideoStream be videoStream outputPath options w =
     (let command = video_command videoStream outputPath options in
      settle be ''Video processing failed: '' command (spawn command w))"

definition processAudioStream ::
  "backend \<Rightarrow> readable \<Rightarrow> path \<Rightarrow> ProcessingOptions \<Rightarrow> world \<Rightarrow> (error + unit) \<times> world" where
  "processAudioStream be audioStream outputPath options w =
     (let command = audio_command audioStream outputPath options in
      settle be ''Audio processing failed: '' command (spawn command w))"

definition combineStreams ::
  "backend \<Rightarrow> path \<Rightarrow> path \<Rightarrow> path \<Rightarrow> ProcessingOptions \<Rightarrow> world \<Rightarrow> (error + unit) \<times> world" where
  "combineStreams be vPath aPath outputPath options w =
     (let command = combine_command vPath aPath outputPath options in
      settle be ''Stream combination failed: '' command (spawn command w))"

text \<open>
  \<open>await Promise.all([processVideoStream(...), processAudioStream(...)])\<close>: both
  processes are started, video first. The promise rejects as soon as one of them
  fails, with that error, while the other may still be running; it resolves when both
  have ended. Nothing is called on the process that is still running.
\<close>

definition transcode_both ::
  "backend \<Rightarrow> readable \<Rightarrow> readable \<Rightarrow> TemporaryPaths \<Rightarrow> ProcessingOptions \<Rightarrow> world \<Rightarrow> (error + unit) \<times> world" where
  "transcode_both be videoStream audioStream paths options w =
     (let vcmd = video_command videoStream (videoPath paths) options;
          acmd = audio_command audioStream (audioPath paths) options;
          w1 = spawn acmd (spawn vcmd w)
      in if video_first be then
           (case settle be ''Video processing failed: '' vcmd w1 of
              (Inl e, w2) \<Rightarrow> (Inl e, written_so_far be acmd w2)
            | (Inr _, w2) \<Rightarrow> settle be ''Audio processing failed: '' acmd w2)
         else
           (case settle be ''Audio processing failed: '' acmd w1 of
              (Inl e, w2) \<Rightarrow> (Inl e, written_so_far be vcmd w2)
            | (Inr _, w2) \<Rightarrow> settle be ''Video processing failed: '' vcmd w2))"

text \<open>The body of the \<open>try\<close> block of \<open>processMedia\<close>.\<close>

definition processMedia_try ::
  "fs_env \<Rightarrow> backend \<Rightarrow> readable \<Rightarrow> readable \<Rightarrow> path \<Rightarrow> ProcessingOptions \<Rightarrow> TemporaryPaths \<Rightarrow> world
     \<Rightarrow> (error + unit) \<times> world" where
  "processMedia_try env be videoStream audioStream finalOutputPath options tempPaths w =
     (case transcode_both be videoStream audioStream tempPaths options w of
        (Inl e, w1) \<Rightarrow> (Inl e, w1)
      | (Inr _, w1) \<Rightarrow>
          (case verifyTemporaryFiles tempPaths w1 of
             (Inl e, w2) \<Rightarrow> (Inl e, w2)
           | (Inr _, w2) \<Rightarrow>
               (case combineStreams be (videoPath tempPaths) (audioPath tempPaths) finalOutputPath options w2 of
                  (Inl e, w3) \<Rightarrow> (Inl e, w3)
                | (Inr _, w3) \<Rightarrow> verifyOutputFile finalOutputPath w3)))"

text \<open>
  \<open>processMedia\<close>: the temporary paths are created before the \<open>try\<close>; the
  \<open>catch\<close> block awaits the cleanup and then rethrows (an error thrown by that cleanup
  leaves the block first); after a \<open>try\<close> that succeeded the cleanup is awaited last.
\<close>

definition processMedia ::
  "FileManager \<Rightarrow> fs_env \<Rightarrow> backend \<Rightarrow> readable \<Rightarrow> readable \<Rightarrow> path \<Rightarrow> ProcessingOptions \<Rightarrow> world
     \<Rightarrow> (error + unit) \<times> world" where
  "processMedia fm env be videoStream audioStream finalOutputPath options w =
     (case createTemporaryPaths fm env w of
        (Inl e, w1) \<Rightarrow> (Inl e, w1)
      | (Inr tempPaths, w1) \<Rightarrow>
          (case processMedia_try env be videoStream audioStream finalOutputPath options tempPaths w1 of
             (Inl error, w2) \<Rightarrow>
               (case cleanupTemporaryFiles env tempPaths w2 of
                  (Inl cleanup_error, w3) \<Rightarrow> (Inl cleanup_error, w3)
                | (Inr _, w3) \<Rightarrow> (Inl error, w3))
           | (Inr _, w2) \<Rightarrow> cleanupTemporaryFiles env tempPaths w2))"

section \<open>YoutubeDownloader (youtubeDownloader.ts)\<close>

record DownloadOptions =
  do_quality :: "string option"
  do_format :: "string option"
  do_videoCodec :: "string option"
  do_audioCodec :: "string option"
  do_videoBitrate :: "string option"
  do_audioBitrate :: "string option"
  do_fps :: "rat option"
  do_outputFormat :: "string option"

datatype progress_state = Downloading | Processing

record DownloaderProgress =
  pr_state :: progress_state
  pr_downloadProgress :: "jsnum option"

record YoutubeDownloader =
  fileManager :: FileManager

text \<open>The constructor makes the one \<open>FileManager\<close> that every later call uses.\<close>

definition new_YoutubeDownloader :: "path \<Rightarrow> nat \<Rightarrow> YoutubeDownloader" where
  "new_YoutubeDownloader tmpdir now = \<lparr>fileManager = new_FileManager tmpdir now ''ytdownload''\<rparr>"

text \<open>
  \<open>downloadVideo\<close>. \<open>onProgress\<close> says whether the caller supplied a progress
  callback; \<open>data\<close> is the sequence of \<open>data\<close> events of the two download streams.
  The result comes with the events delivered to the caller's callback: the
  \<open>processing\<close> event is sent right after the streams are created, the
  \<open>downloading\<close> events as the chunks arrive.
\<close>

definition forward_progress :: "bool \<Rightarrow> DownloadProgress \<Rightarrow> DownloaderProgress list" where
  "forward_progress onProgress downloadProgress =
     (if onProgress
      then [\<lparr>pr_state = Downloading, pr_downloadProgress = Some (dp_percentage downloadProgress)\<rparr>]
      else [])"

definition downloadVideo ::
  "YoutubeDownloader \<Rightarrow> ytdl \<Rightarrow> fs_env \<Rightarrow> backend \<Rightarrow> (track \<times> nat) list \<Rightarrow>
     js_string \<Rightarrow> path \<Rightarrow> DownloadOptions \<Rightarrow> bool \<Rightarrow> world
     \<Rightarrow> ((error + unit) \<times> world) \<times> DownloaderProgress list" where
  "downloadVideo d y env be data url outputPath options onProgress w =
     (case getVideoInfo y url w of
        (Inl e, w1) \<Rightarrow> (rethrow ''Download failed: '' (Inl e, w1), [])
      | (Inr videoInfo, w1) \<Rightarrow>
          (case createStreams y url \<lparr>so_quality = do_quality options, so_format = do_format options\<rparr> True w1 of
             (Inl e, w2) \<Rightarrow> (rethrow ''Download failed: '' (Inl e, w2), [])
           | (Inr streams, w2) \<Rightarrow>
               (rethrow ''Download failed: ''
                  (processMedia (fileManager d) env be (st_videoStream streams) (st_audioStream streams) outputPath
                     \<lparr>po_videoCodec = do_videoCodec options,
                      po_audioCodec = do_audioCodec options,
                      po_outputFormat = do_outputFormat options,
                      po_videoBitrate = do_videoBitrate options,
                      po_audioBitrate = do_audioBitrate options,
                      po_fps = do_fps options\<rparr> w2),
                (if onProgress then [\<lparr>pr_state = Processing, pr_downloadProgress = None\<rparr>] else []) @
                concat (map (forward_progress onProgress)
                          (deliver data (st_videoStream streams) (st_audioStream streams))))))"

section \<open>What a run leaves on disk\<close>

text \<open>
  The state of the file system that the specification asks of a successful run, for a
  workspace root \<open>rootDir\<close> and an output path: the output file exists, nothing exists
  at or below the root, and every entry outside the root that existed before is still
  what it was.
\<close>

definition left_output_only :: "path \<Rightarrow> path \<Rightarrow> world \<Rightarrow> world \<Rightarrow> bool" where
  "left_output_only rootDir out w w' =
     (fs_exists (fs w') out \<and>
      (\<forall>q. prefix rootDir q \<longrightarrow> \<not> fs_exists (fs w') q) \<and>
      (\<forall>q n. \<not> prefix rootDir q \<longrightarrow> map_of (fs w) q = Some n \<longrightarrow> map_of (fs w') q = Some n))"

section \<open>Example runs\<close>

text \<open>
  Concrete inputs for the evaluations below: one video-only and one audio-only format
  of 1000 and 200 bytes, a downloader constructed at clock reading 1700 with
  \<open>/tmp\<close> as the temporary directory, a file system that holds \<open>/tmp\<close> only, and
  environments in which nothing fails, in which every unlink fails, and in which the
  video transcode fails.
\<close>

definition ex_video_format :: videoFormat where
  "ex_video_format = \<lparr>itag = 137, qualityLabel = Some ''1080p'', hasAudio = False, hasVideo = True,
     container = Some ''mp4'', contentLength = Some ''1000''\<rparr>"

definition ex_audio_format :: videoFormat where
  "ex_audio_format = \<lparr>itag = 140, qualityLabel = None, hasAudio = True, hasVideo = False,
     container = Some ''mp4'', contentLength = Some ''200''\<rparr>"

definition ex_ytdl :: ytdl where
  "ex_ytdl = \<lparr>
     getBasicInfo = (\<lambda>u. Inr \<lparr>info_videoDetails =
        Some \<lparr>vd_title = ''title'', vd_thumbnails = [], vd_lengthSeconds = ''10'', vd_author_name = ''author''\<rparr>,
        info_formats = None\<rparr>),
     getInfo = (\<lambda>u. Inr \<lparr>info_videoDetails = None, info_formats = Some [ex_video_format, ex_audio_format]\<rparr>),
     chooseFormat = (\<lambda>fmts q. case fmts of [] \<Rightarrow> Inl (Error ''No such format found'') | f # _ \<Rightarrow> Inr (Some f))\<rparr>"

definition ex_url :: js_string where
  "ex_url = ascii ''https://youtu.be/AgyvqMYmAG8''"

definition ex_options :: DownloadOptions where
  "ex_options = \<lparr>do_quality = None, do_format = None, do_videoCodec = None, do_audioCodec = None,
     do_videoBitrate = None, do_audioBitrate = None, do_fps = None, do_outputFormat = None\<rparr>"

definition ex_processing_options :: ProcessingOptions where
  "ex_processing_options = \<lparr>po_videoCodec = None, po_audioCodec = None, po_outputFormat = None,
     po_videoBitrate = None, po_audioBitrate = None, po_fps = None\<rparr>"

definition ex_video_stream :: readable where
  "ex_video_stream = \<lparr>rd_format = ex_video_format, rd_totalBytes = Num 1200, rd_listening = True,
     rd_downloadedBytes = 0, rd_destroyed = False\<rparr>"

definition ex_audio_stream :: readable where
  "ex_audio_stream = \<lparr>rd_format = ex_audio_format, rd_totalBytes = Num 1200, rd_listening = True,
     rd_downloadedBytes = 0, rd_destroyed = False\<rparr>"

definition ex_downloader :: YoutubeDownloader where
  "ex_downloader = new_YoutubeDownloader [''tmp''] 1700"

definition ex_paths :: TemporaryPaths where
  "ex_paths = \<lparr>tempDir = [''tmp'', ''ytdownload_1700''],
     videoPath = [''tmp'', ''ytdownload_1700'', ''temp_video_1700.mp4''],
     audioPath = [''tmp'', ''ytdownload_1700'', ''temp_audio_1700.aac'']\<rparr>"

definition ex_output :: path where
  "ex_output = [''home'', ''out.mkv'']"

definition ex_env :: fs_env where
  "ex_env = \<lparr>mkdir_error = (\<lambda>p. None), unlink_error = (\<lambda>p. None), readdir_error = (\<lambda>p. None),
     rm_error = (\<lambda>p. None), rmdir_error = (\<lambda>p. None)\<rparr>"

definition ex_env_busy :: fs_env where
  "ex_env_busy = ex_env\<lparr>unlink_error := (\<lambda>p. Some ''EBUSY: resource busy or locked'')\<rparr>"

definition ex_backend :: backend where
  "ex_backend = \<lparr>run = (\<lambda>c. \<lparr>job_result = Inr (), job_writes = True\<rparr>), video_first = True\<rparr>"

definition ex_backend_video_fails :: backend where
  "ex_backend_video_fails =
     \<lparr>run = (\<lambda>c. if cmd_videoCodec c \<noteq> None
                  then \<lparr>job_result = Inl ''ffmpeg exited with code 1'', job_writes = False\<rparr>
                  else \<lparr>job_result = Inr (), job_writes = True\<rparr>),
      video_first = True\<rparr>"

definition ex_data :: "(track \<times> nat) list" where
  "ex_data = [(Video, 600), (Audio, 200), (Video, 400)]"

definition ex_world :: world where
  "ex_world = \<lparr>fs = [([''tmp''], Dir)], calls = [], jobs = []\<rparr>"

definition ex_world_full :: world where
  "ex_world_full = \<lparr>fs = [([''tmp''], Dir), ([''tmp'', ''ytdownload_1700''], Dir),
       ([''tmp'', ''ytdownload_1700'', ''temp_video_1700.mp4''], File),
       ([''tmp'', ''ytdownload_1700'', ''temp_audio_1700.aac''], File),
       ([''home'', ''out.mkv''], File)],
     calls = [], jobs = []\<rparr>"

section \<open>The file system calls\<close>

lemma pair_fst_snd: "fst x = a \<Longrightarrow> x = (a, snd x)"
  by (cases x) simp

lemma map_of_filter_fst:
  "map_of (filter (\<lambda>e. P (fst e)) f) q = (if P q then map_of f q else None)"
  by (induction f) auto

lemma map_of_fs_remove: "map_of (fs_remove p f) q = (if q = p then None else map_of f q)"
  unfolding fs_remove_def using map_of_filter_fst [of "\<lambda>x. x \<noteq> p" f q] by simp

lemma map_of_touch:
  "map_of (touch p f) q = (if q = p \<and> map_of f p = None then Some File else map_of f q)"
  by (auto simp: touch_def fs_exists_def map_add_def split: option.splits)

lemma fs_unlink_Inr:
  "fs_unlink env p f = Inr f' \<Longrightarrow> map_of f' q = (if q = p then None else map_of f q)"
  by (auto simp: fs_unlink_def map_of_fs_remove split: option.splits node.splits)

lemma fs_rm_rf_Inr:
  "fs_rm_rf env d f = Inr f' \<Longrightarrow> map_of f' q = (if prefix d q then None else map_of f q)"
  unfolding fs_rm_rf_def using map_of_filter_fst [of "\<lambda>x. \<not> prefix d x" f q]
  by (auto split: option.splits)

lemma fs_rmdir_Inr:
  "fs_rmdir env d f = Inr f' \<Longrightarrow> map_of f' q = (if q = d then None else map_of f q)"
  by (auto simp: fs_rmdir_def map_of_fs_remove split: option.splits node.splits if_splits)

lemma fs_mkdir_p_Inr:
  "fs_mkdir_p env p f = Inr f' \<Longrightarrow> map_of f q = Some n \<Longrightarrow> map_of f' q = Some n"
  by (auto simp: fs_mkdir_p_def map_add_def split: option.splits if_splits)

lemma existsSync_simps [simp]:
  "fst (existsSync p w) = fs_exists (fs w) p"
  "fs (snd (existsSync p w)) = fs w"
  "jobs (snd (existsSync p w)) = jobs w"
  "calls (snd (existsSync p w)) = calls w @ [FsExists p]"
  by (simp_all add: existsSync_def log_call_def)

section \<open>The cleanup pass\<close>

lemma delete_files_errors_grow:
  "delete_files env ps errs w = (errs', w') \<Longrightarrow> \<exists>new. errs' = errs @ new"
proof (induction ps arbitrary: errs w)
  case Nil
  then show ?case by simp
next
  case (Cons p ps)
  show ?case
  proof (cases "fs_exists (fs w) p")
    case False
    with Cons show ?thesis by (simp add: existsSync_def split: prod.splits)
  next
    case True
    show ?thesis
    proof (cases "fs_unlink env p (fs w)")
      case (Inl e)
      with True Cons.prems
      have "delete_files env ps
              (errs @ [Error (''Failed to delete temporary file '' @ render p @ '': '' @ describe e)])
              (log_call (FsUnlink p) (log_call (FsExists p) w)) = (errs', w')"
        by (simp add: existsSync_def log_call_def)
      from Cons.IH [OF this] show ?thesis by auto
    next
      case (Inr f)
      with True Cons.prems
      have "delete_files env ps errs ((log_call (FsUnlink p) (log_call (FsExists p) w))\<lparr>fs := f\<rparr>) = (errs', w')"
        by (simp add: existsSync_def log_call_def)
      from Cons.IH [OF this] show ?thesis .
    qed
  qed
qed

text \<open>One step of the loop, as a case distinction.\<close>

lemma delete_files_Cons:
  "delete_files env (p # ps) errs w =
     (if \<not> fs_exists (fs w) p then delete_files env ps errs (log_call (FsExists p) w)
      else case fs_unlink env p (fs w) of
             Inl e \<Rightarrow> delete_files env ps
                 (errs @ [Error (''Failed to delete temporary file '' @ render p @ '': '' @ describe e)])
                 (log_call (FsUnlink p) (log_call (FsExists p) w))
           | Inr f \<Rightarrow> delete_files env ps errs ((log_call (FsUnlink p) (log_call (FsExists p) w))\<lparr>fs := f\<rparr>))"
  by (simp add: existsSync_def log_call_def split: sum.splits)

declare delete_files.simps(2) [simp del]

lemma fs_unlink_absent:
  "fs_unlink env p f = Inr f' \<Longrightarrow> map_of f q = None \<Longrightarrow> map_of f' q = None"
  by (simp add: fs_unlink_Inr)

lemma fs_unlink_frame:
  "fs_unlink env p f = Inr f' \<Longrightarrow> q \<noteq> p \<Longrightarrow> map_of f' q = map_of f q"
  by (simp add: fs_unlink_Inr)

lemma delete_files_absent:
  "delete_files env ps errs w = (errs', w') \<Longrightarrow> map_of (fs w) q = None \<Longrightarrow> map_of (fs w') q = None"
proof (induction ps arbitrary: errs w)
  case Nil
  then show ?case by simp
next
  case (Cons p ps)
  from Cons.prems show ?case
    unfolding delete_files_Cons
    by (auto simp: log_call_def fs_unlink_absent split: if_splits sum.splits dest!: Cons.IH)
qed

lemma delete_files_frame:
  "delete_files env ps errs w = (errs', w') \<Longrightarrow> q \<notin> set ps \<Longrightarrow> map_of (fs w') q = map_of (fs w) q"
proof (induction ps arbitrary: errs w)
  case Nil
  then show ?case by simp
next
  case (Cons p ps)
  from Cons.prems show ?case
    unfolding delete_files_Cons
    by (auto simp: log_call_def fs_unlink_frame split: if_splits sum.splits dest!: Cons.IH)
qed

lemma delete_files_jobs:
  "delete_files env ps errs w = (errs', w') \<Longrightarrow> jobs w' = jobs w"
proof (induction ps arbitrary: errs w)
  case Nil
  then show ?case by simp
next
  case (Cons p ps)
  from Cons.prems show ?case
    unfolding delete_files_Cons
    by (auto simp: log_call_def split: if_splits sum.splits dest!: Cons.IH)
qed

lemma delete_files_calls:
  "delete_files env ps errs w = (errs', w') \<Longrightarrow> prefix (calls w) (calls w')"
proof (induction ps arbitrary: errs w)
  case Nil
  then show ?case by simp
next
  case (Cons p ps)
  from Cons.prems show ?case
    unfolding delete_files_Cons
    by (auto simp: log_call_def split: if_splits sum.splits dest!: Cons.IH dest: append_prefixD)
qed

lemma delete_files_removed:
  "delete_files env ps errs w = (errs, w') \<Longrightarrow> p \<in> set ps \<Longrightarrow> map_of (fs w') p = None"
proof (induction ps arbitrary: w)
  case Nil
  then show ?case by simp
next
  case (Cons a ps)
  show ?case
  proof (cases "fs_exists (fs w) a")
    case False
    with Cons.prems(1) have step: "delete_files env ps errs (log_call (FsExists a) w) = (errs, w')"
      by (simp add: delete_files_Cons)
    show ?thesis
    proof (cases "p = a")
      case True
      with False delete_files_absent [OF step, of a] show ?thesis
        by (simp add: fs_exists_def log_call_def)
    next
      case False
      with Cons.prems(2) Cons.IH [OF step] show ?thesis by simp
    qed
  next
    case True
    show ?thesis
    proof (cases "fs_unlink env a (fs w)")
      case (Inl e)
      with True Cons.prems(1)
      have "delete_files env ps
              (errs @ [Error (''Failed to delete temporary file '' @ render a @ '': '' @ describe e)])
              (log_call (FsUnlink a) (log_call (FsExists a) w)) = (errs, w')"
        by (simp add: delete_files_Cons)
      from delete_files_errors_grow [OF this] show ?thesis by simp
    next
      case (Inr f)
      with True Cons.prems(1)
      have step: "delete_files env ps errs ((log_call (FsUnlink a) (log_call (FsExists a) w))\<lparr>fs := f\<rparr>) = (errs, w')"
        by (simp add: delete_files_Cons)
      show ?thesis
      proof (cases "p = a")
        case True
        with fs_unlink_Inr [OF Inr, of a] delete_files_absent [OF step, of a] show ?thesis
          by simp
      next
        case False
        with Cons.prems(2) Cons.IH [OF step] show ?thesis by simp
      qed
    qed
  qed
qed

lemma delete_files_nothing:
  "\<forall>p\<in>set ps. map_of (fs w) p = None \<Longrightarrow>
   delete_files env ps errs w = (errs, w\<lparr>calls := calls w @ map FsExists ps\<rparr>)"
proof (induction ps arbitrary: w)
  case Nil
  then show ?case by simp
next
  case (Cons a ps)
  then show ?case
    by (simp add: delete_files_Cons fs_exists_def log_call_def)
qed

lemma remove_directory_unfold:
  "remove_directory env d w =
     (let w1 = w\<lparr>calls := calls w @ [FsExists d]\<rparr>;
          w2 = w\<lparr>calls := calls w @ [FsExists d, FsReaddir d]\<rparr> in
      if \<not> fs_exists (fs w) d then (Inr (), w1)
      else case fs_readdir env d (fs w) of
             Inl e \<Rightarrow> (Inl e, w2)
           | Inr dirContents \<Rightarrow>
               if dirContents \<noteq> [] then
                 (case fs_rm_rf env d (fs w) of
                    Inl e \<Rightarrow> (Inl e, w\<lparr>calls := calls w @ [FsExists d, FsReaddir d, FsRm d]\<rparr>)
                  | Inr f \<Rightarrow> (Inr (), w\<lparr>calls := calls w @ [FsExists d, FsReaddir d, FsRm d], fs := f\<rparr>))
               else
                 (case fs_rmdir env d (fs w) of
                    Inl e \<Rightarrow> (Inl e, w\<lparr>calls := calls w @ [FsExists d, FsReaddir d, FsRmdir d]\<rparr>)
                  | Inr f \<Rightarrow> (Inr (), w\<lparr>calls := calls w @ [FsExists d, FsReaddir d, FsRmdir d], fs := f\<rparr>)))"
  by (simp add: remove_directory_def existsSync_def log_call_def Let_def split: sum.splits bool.splits)

lemma remove_directory_removed:
  "remove_directory env d w = (Inr u, w') \<Longrightarrow> map_of (fs w') d = None"
  by (auto simp: remove_directory_unfold fs_exists_def Let_def fs_rm_rf_Inr fs_rmdir_Inr
           split: if_splits sum.splits)

lemma remove_directory_absent:
  "remove_directory env d w = (r, w') \<Longrightarrow> map_of (fs w) q = None \<Longrightarrow> map_of (fs w') q = None"
  by (auto simp: remove_directory_unfold Let_def fs_rm_rf_Inr fs_rmdir_Inr
           split: if_splits sum.splits)

lemma remove_directory_frame:
  "remove_directory env d w = (r, w') \<Longrightarrow> \<not> prefix d q \<Longrightarrow> map_of (fs w') q = map_of (fs w) q"
  by (auto simp: remove_directory_unfold Let_def fs_rm_rf_Inr fs_rmdir_Inr
           split: if_splits sum.splits)

lemma remove_directory_jobs:
  "remove_directory env d w = (r, w') \<Longrightarrow> jobs w' = jobs w"
  by (auto simp: remove_directory_unfold Let_def split: if_splits sum.splits)

lemma remove_directory_calls:
  "remove_directory env d w = (r, w') \<Longrightarrow> prefix (calls w) (calls w')"
  by (auto simp: remove_directory_unfold Let_def split: if_splits sum.splits)

lemma remove_directory_nothing:
  "map_of (fs w) d = None \<Longrightarrow>
   remove_directory env d w = (Inr (), w\<lparr>calls := calls w @ [FsExists d]\<rparr>)"
  by (simp add: remove_directory_unfold fs_exists_def)

lemma cleanup_cases:
  obtains (ok) errors1 w1 w2 u where
      "delete_files env [videoPath paths, audioPath paths] [] w = ([], w1)"
      "remove_directory env (tempDir paths) w1 = (Inr u, w2)"
      "cleanupTemporaryFiles env paths w = (Inr (), w2)"
  | (failed) es w2 where "es \<noteq> []" "cleanupTemporaryFiles env paths w = (Inl (CleanupError es), w2)"
proof (cases "delete_files env [videoPath paths, audioPath paths] [] w")
  case (Pair errors1 w1)
  show ?thesis
  proof (cases "remove_directory env (tempDir paths) w1")
    case rd: (Pair r w2)
    show ?thesis
    proof (cases r)
      case (Inl e)
      with Pair rd show ?thesis
        by (intro failed [of "errors1 @ [Error (''Failed to remove temporary directory '' @
                    render (tempDir paths) @ '': '' @ describe e)]" w2])
           (simp_all add: cleanupTemporaryFiles_def)
    next
      case (Inr u)
      show ?thesis
      proof (cases "errors1 = []")
        case True
        with Pair rd Inr show ?thesis
          by (intro ok [of w1 u w2]) (simp_all add: cleanupTemporaryFiles_def)
      next
        case False
        with Pair rd Inr show ?thesis
          by (intro failed [of errors1 w2]) (simp_all add: cleanupTemporaryFiles_def)
      qed
    qed
  qed
qed

lemma cleanup_removed:
  assumes "cleanupTemporaryFiles env paths w = (Inr u, w')"
  shows "map_of (fs w') (videoPath paths) = None"
    and "map_of (fs w') (audioPath paths) = None"
    and "map_of (fs w') (tempDir paths) = None"
proof -
  obtain w1 v where df: "delete_files env [videoPath paths, audioPath paths] [] w = ([], w1)"
    and rd: "remove_directory env (tempDir paths) w1 = (Inr v, w')"
    using assms by (cases rule: cleanup_cases [of env paths w]) auto
  from delete_files_removed [OF df] have "map_of (fs w1) (videoPath paths) = None"
    "map_of (fs w1) (audioPath paths) = None" by simp_all
  with remove_directory_absent [OF rd]
  show "map_of (fs w') (videoPath paths) = None" "map_of (fs w') (audioPath paths) = None"
    by simp_all
  from remove_directory_removed [OF rd] show "map_of (fs w') (tempDir paths) = None" .
qed

lemma cleanup_parts:
  obtains errors1 w1 r where
    "delete_files env [videoPath paths, audioPath paths] [] w = (errors1, w1)"
    "remove_directory env (tempDir paths) w1 = (r, snd (cleanupTemporaryFiles env paths w))"
  by (cases "delete_files env [videoPath paths, audioPath paths] [] w";
      cases "remove_directory env (tempDir paths)
               (snd (delete_files env [videoPath paths, audioPath paths] [] w))")
     (auto simp: cleanupTemporaryFiles_def Let_def)

lemma cleanup_absent:
  assumes "cleanupTemporaryFiles env paths w = (r, w')" "map_of (fs w) q = None"
  shows "map_of (fs w') q = None"
proof -
  obtain errors1 w1 r' where df: "delete_files env [videoPath paths, audioPath paths] [] w = (errors1, w1)"
    and rd: "remove_directory env (tempDir paths) w1 = (r', snd (cleanupTemporaryFiles env paths w))"
    by (rule cleanup_parts)
  from delete_files_absent [OF df assms(2)] remove_directory_absent [OF rd] assms(1)
  show ?thesis by simp
qed

lemma cleanup_frame:
  assumes "cleanupTemporaryFiles env paths w = (r, w')"
    and "\<not> prefix (tempDir paths) q" "q \<noteq> videoPath paths" "q \<noteq> audioPath paths"
  shows "map_of (fs w') q = map_of (fs w) q"
proof -
  obtain errors1 w1 r' where df: "delete_files env [videoPath paths, audioPath paths] [] w = (errors1, w1)"
    and rd: "remove_directory env (tempDir paths) w1 = (r', snd (cleanupTemporaryFiles env paths w))"
    by (rule cleanup_parts)
  from delete_files_frame [OF df, of q] remove_directory_frame [OF rd, of q] assms
  show ?thesis by simp
qed

lemma cleanup_jobs:
  assumes "cleanupTemporaryFiles env paths w = (r, w')"
  shows "jobs w' = jobs w"
proof -
  obtain errors1 w1 r' where df: "delete_files env [videoPath paths, audioPath paths] [] w = (errors1, w1)"
    and rd: "remove_directory env (tempDir paths) w1 = (r', snd (cleanupTemporaryFiles env paths w))"
    by (rule cleanup_parts)
  from delete_files_jobs [OF df] remove_directory_jobs [OF rd] assms
  show ?thesis by simp
qed

lemma cleanup_calls:
  assumes "cleanupTemporaryFiles env paths w = (r, w')"
  shows "prefix (calls w) (calls w')"
proof -
  obtain errors1 w1 r' where df: "delete_files env [videoPath paths, audioPath paths] [] w = (errors1, w1)"
    and rd: "remove_directory env (tempDir paths) w1 = (r', snd (cleanupTemporaryFiles env paths w))"
    by (rule cleanup_parts)
  from delete_files_calls [OF df] remove_directory_calls [OF rd] assms
  show ?thesis by (auto intro: prefix_order.trans)
qed

lemma cleanup_nothing:
  assumes "map_of (fs w) (videoPath paths) = None" "map_of (fs w) (audioPath paths) = None"
    "map_of (fs w) (tempDir paths) = None"
  shows "cleanupTemporaryFiles env paths w =
           (Inr (), w\<lparr>calls := calls w @ [FsExists (videoPath paths), FsExists (audioPath paths),
                                         FsExists (tempDir paths)]\<rparr>)"
  using assms
  by (simp add: cleanupTemporaryFiles_def delete_files_nothing remove_directory_nothing)

lemmas fs_eval = cleanupTemporaryFiles_def delete_files_Cons remove_directory_unfold
  fs_exists_def fs_unlink_def fs_remove_def fs_readdir_def fs_children_def fs_rmdir_def fs_rm_rf_def
  log_call_def Let_def

text \<open>
  Claim C8: cleanup is idempotent. After a call of \<open>cleanupTemporaryFiles\<close> that
  completed without raising, a second call on the same paths raises nothing either,
  whatever fails in the environment by then: it finds the two files and the directory
  already absent, only checks their existence and leaves the file system as it is.
  The same holds for any call that finds the three paths already removed.
\<close>

theorem cleanup_idempotent:
  "(cleanupTemporaryFiles env paths w = (Inr (), w1) \<longrightarrow>
      cleanupTemporaryFiles env' paths w1 =
        (Inr (), w1\<lparr>calls := calls w1 @ [FsExists (videoPath paths), FsExists (audioPath paths),
                                         FsExists (tempDir paths)]\<rparr>)) \<and>
   (\<not> fs_exists (fs w) (videoPath paths) \<and> \<not> fs_exists (fs w) (audioPath paths) \<and>
    \<not> fs_exists (fs w) (tempDir paths) \<longrightarrow>
      cleanupTemporaryFiles env' paths w =
        (Inr (), w\<lparr>calls := calls w @ [FsExists (videoPath paths), FsExists (audioPath paths),
                                       FsExists (tempDir paths)]\<rparr>))"
proof (intro conjI impI)
  assume "cleanupTemporaryFiles env paths w = (Inr (), w1)"
  from cleanup_removed [OF this]
  show "cleanupTemporaryFiles env' paths w1 =
        (Inr (), w1\<lparr>calls := calls w1 @ [FsExists (videoPath paths), FsExists (audioPath paths),
                                         FsExists (tempDir paths)]\<rparr>)"
    by (rule cleanup_nothing)
next
  assume "\<not> fs_exists (fs w) (videoPath paths) \<and> \<not> fs_exists (fs w) (audioPath paths) \<and>
    \<not> fs_exists (fs w) (tempDir paths)"
  then show "cleanupTemporaryFiles env' paths w =
        (Inr (), w\<lparr>calls := calls w @ [FsExists (videoPath paths), FsExists (audioPath paths),
                                       FsExists (tempDir paths)]\<rparr>)"
    by (intro cleanup_nothing) (simp_all add: fs_exists_def)
qed

theorem cleanup_idempotent_witness:
  "fst (cleanupTemporaryFiles ex_env ex_paths ex_world_full) = Inr () \<and>
   fs (snd (cleanupTemporaryFiles ex_env ex_paths ex_world_full)) =
     [([''tmp''], Dir), ([''home'', ''out.mkv''], File)] \<and>
   fst (cleanupTemporaryFiles ex_env_busy ex_paths
          (snd (cleanupTemporaryFiles ex_env ex_paths ex_world_full))) = Inr () \<and>
   fs (snd (cleanupTemporaryFiles ex_env_busy ex_paths
          (snd (cleanupTemporaryFiles ex_env ex_paths ex_world_full)))) =
     [([''tmp''], Dir), ([''home'', ''out.mkv''], File)] \<and>
   \<not> fs_exists (fs ex_world) (videoPath ex_paths) \<and>
   \<not> fs_exists (fs ex_world) (audioPath ex_paths) \<and>
   \<not> fs_exists (fs ex_world) (tempDir ex_paths) \<and>
   cleanupTemporaryFiles ex_env_busy ex_paths ex_world =
     (Inr (), ex_world\<lparr>calls := [FsExists (videoPath ex_paths), FsExists (audioPath ex_paths),
                                 FsExists (tempDir ex_paths)]\<rparr>)"
proof -
  let ?w1 = "snd (cleanupTemporaryFiles ex_env ex_paths ex_world_full)"
  have first: "fst (cleanupTemporaryFiles ex_env ex_paths ex_world_full) = Inr ()"
    by (simp add: fs_eval ex_env_def ex_paths_def ex_world_full_def)
  have disk: "fs ?w1 = [([''tmp''], Dir), ([''home'', ''out.mkv''], File)]"
    by (simp add: fs_eval ex_env_def ex_paths_def ex_world_full_def)
  have absent: "\<not> fs_exists (fs ex_world) (videoPath ex_paths) \<and>
      \<not> fs_exists (fs ex_world) (audioPath ex_paths) \<and>
      \<not> fs_exists (fs ex_world) (tempDir ex_paths)"
    by (simp add: fs_exists_def ex_world_def ex_paths_def)
  note t = cleanup_idempotent [of ex_env ex_paths _ _ ex_env_busy]
  from t [of ex_world_full ?w1] pair_fst_snd [OF first]
  have second: "cleanupTemporaryFiles ex_env_busy ex_paths ?w1 =
      (Inr (), ?w1\<lparr>calls := calls ?w1 @ [FsExists (videoPath ex_paths), FsExists (audioPath ex_paths),
                                         FsExists (tempDir ex_paths)]\<rparr>)"
    by blast
  from t [of ex_world] absent
  have third: "cleanupTemporaryFiles ex_env_busy ex_paths ex_world =
      (Inr (), ex_world\<lparr>calls := calls ex_world @ [FsExists (videoPath ex_paths),
          FsExists (audioPath ex_paths), FsExists (tempDir ex_paths)]\<rparr>)"
    by blast
  have "calls ex_world = []" by (simp add: ex_world_def)
  with first disk second third absent show ?thesis by simp
qed

section \<open>The stages of processMedia\<close>

lemma createTemporaryPaths_unfold:
  "createTemporaryPaths fm env w =
     (case fs_mkdir_p env (baseTempDir fm) (fs w) of
        Inl e \<Rightarrow> (Inl (Error (''Failed to create temporary paths: '' @ describe e)),
                  w\<lparr>calls := calls w @ [FsMkdir (baseTempDir fm)]\<rparr>)
      | Inr f \<Rightarrow>
          if map_of f (baseTempDir fm) = None
          then (Inl (Error (''Failed to create temporary paths: '' @
                            ''Failed to create temporary directory: '' @ render (baseTempDir fm))),
                w\<lparr>calls := calls w @ [FsMkdir (baseTempDir fm), FsExists (baseTempDir fm)], fs := f\<rparr>)
          else (Inr \<lparr>tempDir = baseTempDir fm,
                     videoPath = baseTempDir fm @ [''temp_video_'' @ string_of_nat (timestamp fm) @ ''.mp4''],
                     audioPath = baseTempDir fm @ [''temp_audio_'' @ string_of_nat (timestamp fm) @ ''.aac'']\<rparr>,
                w\<lparr>calls := calls w @ [FsMkdir (baseTempDir fm), FsExists (baseTempDir fm)], fs := f\<rparr>))"
  by (simp add: createTemporaryPaths_def rethrow_def existsSync_def log_call_def fs_exists_def
                describe_def
           split: sum.splits bool.splits)

lemma createTemporaryPaths_Inr:
  assumes "createTemporaryPaths fm env w = (Inr tp, w1)"
  shows "tp = \<lparr>tempDir = baseTempDir fm,
               videoPath = baseTempDir fm @ [''temp_video_'' @ string_of_nat (timestamp fm) @ ''.mp4''],
               audioPath = baseTempDir fm @ [''temp_audio_'' @ string_of_nat (timestamp fm) @ ''.aac'']\<rparr>"
    and "jobs w1 = jobs w"
    and "calls w1 = calls w @ [FsMkdir (baseTempDir fm), FsExists (baseTempDir fm)]"
    and "fs_exists (fs w1) (baseTempDir fm)"
    and "\<And>q n. map_of (fs w) q = Some n \<Longrightarrow> map_of (fs w1) q = Some n"
  using assms unfolding createTemporaryPaths_unfold
  by (auto simp: fs_exists_def split: sum.splits if_splits dest: fs_mkdir_p_Inr)

lemma createTemporaryPaths_Inl:
  assumes "createTemporaryPaths fm env w = (Inl e, w1)"
  shows "jobs w1 = jobs w"
  using assms unfolding createTemporaryPaths_unfold
  by (auto split: sum.splits if_splits)

lemma spawn_simps [simp]:
  "fs (spawn c w) = fs w"
  "calls (spawn c w) = calls w @ [Ffmpeg c]"
  "jobs (spawn c w) = jobs w @ [(c, Running)]"
  by (simp_all add: spawn_def)

lemma written_so_far_simps [simp]:
  "calls (written_so_far be c w) = calls w"
  "jobs (written_so_far be c w) = jobs w"
  by (simp_all add: written_so_far_def)

lemma written_so_far_keeps:
  "map_of (fs w) q = Some n \<Longrightarrow> map_of (fs (written_so_far be c w)) q = Some n"
  by (auto simp: written_so_far_def map_of_touch)

lemma map_fst_set_status [simp]: "map fst (set_status c st js) = map fst js"
  by (induction js) (auto simp: set_status_def)

lemma settle_calls [simp]: "calls (snd (settle be pfx c w)) = calls w"
  by (simp add: settle_def Let_def split: sum.splits)

lemma settle_jobs [simp]: "map fst (jobs (snd (settle be pfx c w))) = map fst (jobs w)"
  by (simp add: settle_def Let_def split: sum.splits)

lemma settle_keeps:
  "map_of (fs w) q = Some n \<Longrightarrow> map_of (fs (snd (settle be pfx c w))) q = Some n"
  by (simp add: settle_def Let_def written_so_far_keeps split: sum.splits)

lemma settle_result:
  "fst (settle be pfx c w) =
     (case job_result (run be c) of Inl m \<Rightarrow> Inl (Error (pfx @ m)) | Inr u \<Rightarrow> Inr ())"
  by (simp add: settle_def Let_def split: sum.splits)

lemma transcode_both_calls:
  "calls (snd (transcode_both be vs as tp options w)) =
     calls w @ [Ffmpeg (video_command vs (videoPath tp) options),
                Ffmpeg (audio_command as (audioPath tp) options)]"
  by (auto simp: transcode_both_def Let_def split: prod.splits sum.splits
           dest!: arg_cong [where f = "\<lambda>r. calls (snd r)"])

lemma transcode_both_jobs:
  "map fst (jobs (snd (transcode_both be vs as tp options w))) =
     map fst (jobs w) @ [video_command vs (videoPath tp) options,
                         audio_command as (audioPath tp) options]"
  by (auto simp: transcode_both_def Let_def split: prod.splits sum.splits
           dest!: arg_cong [where f = "\<lambda>r. map fst (jobs (snd r))"])

lemma transcode_both_keeps:
  "map_of (fs w) q = Some n \<Longrightarrow> map_of (fs (snd (transcode_both be vs as tp options w))) q = Some n"
proof -
  assume a: "map_of (fs w) q = Some n"
  have s: "\<And>pfx c w0. map_of (fs w0) q = Some n \<Longrightarrow> map_of (fs (snd (settle be pfx c w0))) q = Some n"
    by (rule settle_keeps)
  let ?vcmd = "video_command vs (videoPath tp) options"
  let ?acmd = "audio_command as (audioPath tp) options"
  let ?w1 = "spawn ?acmd (spawn ?vcmd w)"
  from a have w1: "map_of (fs ?w1) q = Some n" by simp
  show ?thesis
  proof (cases "video_first be")
    case True
    show ?thesis
    proof (cases "settle be ''Video processing failed: '' ?vcmd ?w1")
      case (Pair r w2)
      with s [OF w1, of "''Video processing failed: ''" ?vcmd] have w2: "map_of (fs w2) q = Some n" by simp
      show ?thesis
      proof (cases r)
        case (Inl e)
        with True Pair w2 show ?thesis
          by (simp add: transcode_both_def Let_def written_so_far_keeps)
      next
        case (Inr u)
        with True Pair s [OF w2, of "''Audio processing failed: ''" ?acmd] show ?thesis
          by (simp add: transcode_both_def Let_def)
      qed
    qed
  next
    case False
    show ?thesis
    proof (cases "settle be ''Audio processing failed: '' ?acmd ?w1")
      case (Pair r w2)
      with s [OF w1, of "''Audio processing failed: ''" ?acmd] have w2: "map_of (fs w2) q = Some n" by simp
      show ?thesis
      proof (cases r)
        case (Inl e)
        with False Pair w2 show ?thesis
          by (simp add: transcode_both_def Let_def written_so_far_keeps)
      next
        case (Inr u)
        with False Pair s [OF w2, of "''Video processing failed: ''" ?vcmd] show ?thesis
          by (simp add: transcode_both_def Let_def)
      qed
    qed
  qed
qed

lemma transcode_both_video_fails:
  assumes "job_result (run be (video_command vs (videoPath tp) options)) = Inl m"
  shows "\<exists>e. fst (transcode_both be vs as tp options w) = Inl e"
proof -
  let ?vcmd = "video_command vs (videoPath tp) options"
  let ?acmd = "audio_command as (audioPath tp) options"
  have v: "\<And>w0. fst (settle be ''Video processing failed: '' ?vcmd w0) =
             Inl (Error (''Video processing failed: '' @ m))"
    using assms by (simp add: settle_result)
  show ?thesis
  proof (cases "video_first be")
    case True
    with v [of "spawn ?acmd (spawn ?vcmd w)"] show ?thesis
      by (auto simp: transcode_both_def Let_def split: prod.splits sum.splits)
  next
    case False
    show ?thesis
    proof (cases "settle be ''Audio processing failed: '' ?acmd (spawn ?acmd (spawn ?vcmd w))")
      case (Pair r w2)
      with False v [of w2] show ?thesis
        by (cases r; cases "settle be ''Video processing failed: '' ?vcmd w2")
           (auto simp: transcode_both_def Let_def)
    qed
  qed
qed

lemma verifyTemporaryFiles_unfold:
  "verifyTemporaryFiles tp w =
     (if \<not> fs_exists (fs w) (videoPath tp)
      then (Inl (Error (''Temporary video file not found at '' @ render (videoPath tp))),
            w\<lparr>calls := calls w @ [FsExists (videoPath tp)]\<rparr>)
      else if \<not> fs_exists (fs w) (audioPath tp)
      then (Inl (Error (''Temporary audio file not found at '' @ render (audioPath tp))),
            w\<lparr>calls := calls w @ [FsExists (videoPath tp), FsExists (audioPath tp)]\<rparr>)
      else (Inr (), w\<lparr>calls := calls w @ [FsExists (videoPath tp), FsExists (audioPath tp)]\<rparr>))"
  by (simp add: verifyTemporaryFiles_def existsSync_def log_call_def)

lemma verifyOutputFile_unfold:
  "verifyOutputFile out w =
     (if \<not> fs_exists (fs w) out
      then (Inl (Error (''Output file not found at '' @ render out)), w\<lparr>calls := calls w @ [FsExists out]\<rparr>)
      else (Inr (), w\<lparr>calls := calls w @ [FsExists out]\<rparr>))"
  by (simp add: verifyOutputFile_def existsSync_def log_call_def)

lemma combineStreams_calls:
  "calls (snd (combineStreams be v a out options w)) = calls w @ [Ffmpeg (combine_command v a out options)]"
  by (simp add: combineStreams_def Let_def)

lemma combineStreams_jobs:
  "map fst (jobs (snd (combineStreams be v a out options w))) =
     map fst (jobs w) @ [combine_command v a out options]"
  by (simp add: combineStreams_def Let_def)

lemma combineStreams_keeps:
  "map_of (fs w) q = Some n \<Longrightarrow> map_of (fs (snd (combineStreams be v a out options w))) q = Some n"
  by (simp add: combineStreams_def Let_def settle_keeps)

text \<open>The \<open>try\<close> block as a whole.\<close>

lemma processMedia_try_keeps:
  assumes "map_of (fs w) q = Some n"
  shows "map_of (fs (snd (processMedia_try env be vs as out options tp w))) q = Some n"
proof (cases "transcode_both be vs as tp options w")
  case tb: (Pair r1 w1)
  from transcode_both_keeps [OF assms, of be vs as tp options] tb
  have k1: "map_of (fs w1) q = Some n" by simp
  show ?thesis
  proof (cases r1)
    case (Inl e)
    with tb k1 show ?thesis by (simp add: processMedia_try_def)
  next
    case (Inr u)
    show ?thesis
    proof (cases "fst (verifyTemporaryFiles tp w1)")
      case (Inl e)
      with tb Inr k1 show ?thesis
        by (auto simp: processMedia_try_def verifyTemporaryFiles_unfold split: if_splits)
    next
      case v: (Inr u2)
      let ?w2 = "w1\<lparr>calls := calls w1 @ [FsExists (videoPath tp), FsExists (audioPath tp)]\<rparr>"
      from v have vt: "verifyTemporaryFiles tp w1 = (Inr (), ?w2)"
        by (auto simp: verifyTemporaryFiles_unfold split: if_splits)
      from k1 have k2: "map_of (fs ?w2) q = Some n" by simp
      obtain r3 w3 where cs: "combineStreams be (videoPath tp) (audioPath tp) out options ?w2 = (r3, w3)"
        by (cases "combineStreams be (videoPath tp) (audioPath tp) out options ?w2")
      from combineStreams_keeps [OF k2, of be "videoPath tp" "audioPath tp" out options] cs
      have k3: "map_of (fs w3) q = Some n" by simp
      from tb Inr vt cs k3 show ?thesis
        by (cases r3) (auto simp: processMedia_try_def verifyOutputFile_unfold)
    qed
  qed
qed

lemma processMedia_try_Inr:
  assumes "processMedia_try env be vs as out options tp w = (Inr u, w')"
  shows "fs_exists (fs w') out"
    and "calls w' = calls w @
           [Ffmpeg (video_command vs (videoPath tp) options),
            Ffmpeg (audio_command as (audioPath tp) options),
            FsExists (videoPath tp), FsExists (audioPath tp),
            Ffmpeg (combine_command (videoPath tp) (audioPath tp) out options),
            FsExists out]"
proof -
  obtain r1 w1 where tb: "transcode_both be vs as tp options w = (r1, w1)"
    by (cases "transcode_both be vs as tp options w")
  from transcode_both_calls [of be vs as tp options w] tb
  have c1: "calls w1 = calls w @ [Ffmpeg (video_command vs (videoPath tp) options),
                                  Ffmpeg (audio_command as (audioPath tp) options)]" by simp
  from assms tb obtain u1 where r1: "r1 = Inr u1"
    by (cases r1) (auto simp: processMedia_try_def)
  let ?w2 = "w1\<lparr>calls := calls w1 @ [FsExists (videoPath tp), FsExists (audioPath tp)]\<rparr>"
  from assms tb r1 have vt: "verifyTemporaryFiles tp w1 = (Inr (), ?w2)"
    by (auto simp: processMedia_try_def verifyTemporaryFiles_unfold split: if_splits)
  obtain r3 w3 where cs: "combineStreams be (videoPath tp) (audioPath tp) out options ?w2 = (r3, w3)"
    by (cases "combineStreams be (videoPath tp) (audioPath tp) out options ?w2")
  from combineStreams_calls [of be "videoPath tp" "audioPath tp" out options ?w2] cs
  have c3: "calls w3 = calls ?w2 @ [Ffmpeg (combine_command (videoPath tp) (audioPath tp) out options)]"
    by simp
  from assms tb r1 vt cs obtain u3 where r3: "r3 = Inr u3"
    by (cases r3) (auto simp: processMedia_try_def)
  from assms tb r1 vt cs r3 have vo: "verifyOutputFile out w3 = (Inr u, w')"
    by (simp add: processMedia_try_def)
  then have ex: "fs_exists (fs w3) out" and w': "w' = w3\<lparr>calls := calls w3 @ [FsExists out]\<rparr>"
    by (auto simp: verifyOutputFile_unfold split: if_splits)
  from ex w' show "fs_exists (fs w') out" by simp
  from w' c3 c1 show "calls w' = calls w @
           [Ffmpeg (video_command vs (videoPath tp) options),
            Ffmpeg (audio_command as (audioPath tp) options),
            FsExists (videoPath tp), FsExists (audioPath tp),
            Ffmpeg (combine_command (videoPath tp) (audioPath tp) out options),
            FsExists out]"
    by simp
qed

lemma processMedia_try_video_fails:
  assumes "job_result (run be (video_command vs (videoPath tp) options)) = Inl m"
  shows "\<exists>e. fst (processMedia_try env be vs as out options tp w) = Inl e"
    and "map fst (jobs (snd (processMedia_try env be vs as out options tp w))) =
           map fst (jobs w) @ [video_command vs (videoPath tp) options,
                               audio_command as (audioPath tp) options]"
proof -
  obtain r1 w1 where tb: "transcode_both be vs as tp options w = (r1, w1)"
    by (cases "transcode_both be vs as tp options w")
  from transcode_both_video_fails [OF assms, of as w] tb obtain e where r1: "r1 = Inl e" by auto
  with tb have eq: "processMedia_try env be vs as out options tp w = (Inl e, w1)"
    by (simp add: processMedia_try_def)
  then show "\<exists>e. fst (processMedia_try env be vs as out options tp w) = Inl e" by simp
  from eq transcode_both_jobs [of be vs as tp options w] tb
  show "map fst (jobs (snd (processMedia_try env be vs as out options tp w))) =
           map fst (jobs w) @ [video_command vs (videoPath tp) options,
                               audio_command as (audioPath tp) options]"
    by simp
qed

text \<open>processMedia, case by case.\<close>

lemma processMedia_cases:
  obtains
    (no_workspace) e w1 where
      "createTemporaryPaths fm env w = (Inl e, w1)"
      "processMedia fm env be vs as out options w = (Inl e, w1)"
  | (failed_cleanup_failed) tp w1 e w2 ce w3 where
      "createTemporaryPaths fm env w = (Inr tp, w1)"
      "processMedia_try env be vs as out options tp w1 = (Inl e, w2)"
      "cleanupTemporaryFiles env tp w2 = (Inl ce, w3)"
      "processMedia fm env be vs as out options w = (Inl ce, w3)"
  | (failed_cleaned) tp w1 e w2 w3 where
      "createTemporaryPaths fm env w = (Inr tp, w1)"
      "processMedia_try env be vs as out options tp w1 = (Inl e, w2)"
      "cleanupTemporaryFiles env tp w2 = (Inr (), w3)"
      "processMedia fm env be vs as out options w = (Inl e, w3)"
  | (done_cleanup_failed) tp w1 w2 ce w3 where
      "createTemporaryPaths fm env w = (Inr tp, w1)"
      "processMedia_try env be vs as out options tp w1 = (Inr (), w2)"
      "cleanupTemporaryFiles env tp w2 = (Inl ce, w3)"
      "processMedia fm env be vs as out options w = (Inl ce, w3)"
  | (done_cleaned) tp w1 w2 w3 where
      "createTemporaryPaths fm env w = (Inr tp, w1)"
      "processMedia_try env be vs as out options tp w1 = (Inr (), w2)"
      "cleanupTemporaryFiles env tp w2 = (Inr (), w3)"
      "processMedia fm env be vs as out options w = (Inr (), w3)"
proof (cases "createTemporaryPaths fm env w")
  case ctp: (Pair r0 w1)
  show ?thesis
  proof (cases r0)
    case (Inl e)
    with ctp show ?thesis by (intro no_workspace [of e w1]) (simp_all add: processMedia_def)
  next
    case tp: (Inr tp)
    show ?thesis
    proof (cases "processMedia_try env be vs as out options tp w1")
      case tr: (Pair r2 w2)
      show ?thesis
      proof (cases "cleanupTemporaryFiles env tp w2")
        case cl: (Pair r3 w3)
        show ?thesis
        proof (cases r2)
          case e: (Inl e)
          show ?thesis
          proof (cases r3)
            case (Inl ce)
            with ctp tp tr cl e show ?thesis
              by (intro failed_cleanup_failed [of tp w1 e w2 ce w3]) (simp_all add: processMedia_def)
          next
            case (Inr u)
            with ctp tp tr cl e show ?thesis
              by (intro failed_cleaned [of tp w1 e w2 w3]) (simp_all add: processMedia_def)
          qed
        next
          case ok: (Inr u2)
          show ?thesis
          proof (cases r3)
            case (Inl ce)
            with ctp tp tr cl ok show ?thesis
              by (intro done_cleanup_failed [of tp w1 w2 ce w3]) (simp_all add: processMedia_def)
          next
            case (Inr u)
            with ctp tp tr cl ok show ?thesis
              by (intro done_cleaned [of tp w1 w2 w3]) (simp_all add: processMedia_def)
          qed
        qed
      qed
    qed
  qed
qed

lemma video_command_simps [simp]:
  "cmd_videoCodec (video_command vs p options) = Some (or_else (po_videoCodec options) ''copy'')"
  "cmd_audioCodec (video_command vs p options) = None"
  "cmd_format (video_command vs p options) = None"
  "cmd_inputs (video_command vs p options) = [StreamInput (rd_format vs)]"
  "cmd_output (video_command vs p options) = p"
  by (simp_all add: video_command_def ffmpeg_def)

lemma audio_command_simps [simp]:
  "cmd_audioCodec (audio_command as p options) = Some (or_else (po_audioCodec options) ''aac'')"
  "cmd_videoCodec (audio_command as p options) = None"
  "cmd_format (audio_command as p options) = None"
  "cmd_inputs (audio_command as p options) = [StreamInput (rd_format as)]"
  "cmd_output (audio_command as p options) = p"
  by (simp_all add: audio_command_def ffmpeg_def)

lemma combine_command_simps [simp]:
  "cmd_videoCodec (combine_command v a p options) = None"
  "cmd_audioCodec (combine_command v a p options) = None"
  "cmd_format (combine_command v a p options) = Some (or_else (po_outputFormat options) ''matroska'')"
  "cmd_inputs (combine_command v a p options) = [FileInput v, FileInput a]"
  "cmd_outputOptions (combine_command v a p options) = [''-c:v copy'', ''-c:a copy'']"
  "cmd_output (combine_command v a p options) = p"
  by (simp_all add: combine_command_def ffmpeg_def)

lemma commands_distinct [simp]:
  "video_command vs p options \<noteq> audio_command as q options'"
  "audio_command as q options' \<noteq> video_command vs p options"
  "combine_command v a out options \<noteq> video_command vs p options'"
  "video_command vs p options' \<noteq> combine_command v a out options"
  "combine_command v a out options \<noteq> audio_command as q options'"
  "audio_command as q options' \<noteq> combine_command v a out options"
proof -
  have by_codec: "\<And>c d. cmd_videoCodec c \<noteq> cmd_videoCodec d \<Longrightarrow> c \<noteq> d" by auto
  have by_format: "\<And>c d. cmd_format c \<noteq> cmd_format d \<Longrightarrow> c \<noteq> d" by auto
  show "video_command vs p options \<noteq> audio_command as q options'"
    by (rule by_codec) simp
  show "audio_command as q options' \<noteq> video_command vs p options"
    by (rule by_codec) simp
  show "combine_command v a out options \<noteq> video_command vs p options'"
    by (rule by_format) simp
  show "video_command vs p options' \<noteq> combine_command v a out options"
    by (rule by_format) simp
  show "combine_command v a out options \<noteq> audio_command as q options'"
    by (rule by_format) simp
  show "audio_command as q options' \<noteq> combine_command v a out options"
    by (rule by_format) simp
qed

lemmas run_eval = processMedia_def createTemporaryPaths_unfold fs_mkdir_p_def
  processMedia_try_def transcode_both_def spawn_def settle_def written_so_far_def touch_def
  set_status_def combineStreams_def verifyTemporaryFiles_unfold verifyOutputFile_unfold
  new_FileManager_def new_YoutubeDownloader_def string_of_nat.simps digit_char_def
  describe_def render_def

lemmas ex_defs = ex_downloader_def ex_env_def ex_env_busy_def ex_backend_def
  ex_backend_video_fails_def ex_world_def ex_paths_def ex_output_def

lemmas dl_eval = downloadVideo_def getVideoInfo_def createStreams_def createProgressTrackingStream_def
  rethrow_def validateUrl_def rx_test_def youtubeRegex_def ascii_def line_terminator_def
  parseInt_def is_space_def digit_val_def digits_value_def or_else_def
  ex_ytdl_def ex_url_def ex_options_def ex_video_format_def ex_audio_format_def

text \<open>
  Claim C10: on the success path the cleanup is invoked only after the output file was
  written and verified, and when that cleanup raises, processMedia rejects with the
  cleanup's error although the verified output file is on disk. With the workspace
  created and the \<open>try\<close> block completed, the last call before the cleanup is the
  existence check of the output file, which found it after the mux command ran; the
  result of \<open>processMedia\<close> is then whatever the cleanup returns, so a
  \<open>CleanupError\<close> is what the caller gets, and an output file outside the workspace
  is still there.
\<close>

theorem cleanup_failure_rejects_verified_run:
  assumes "createTemporaryPaths fm env w = (Inr tp, w1)"
    and "processMedia_try env be vs as out options tp w1 = (Inr (), w2)"
    and "cleanupTemporaryFiles env tp w2 = (Inl ce, w3)"
  shows "processMedia fm env be vs as out options w = (Inl ce, w3) \<and>
         (\<exists>es. ce = CleanupError es \<and> es \<noteq> []) \<and>
         fs_exists (fs w2) out \<and>
         calls w2 = calls w1 @
           [Ffmpeg (video_command vs (videoPath tp) options),
            Ffmpeg (audio_command as (audioPath tp) options),
            FsExists (videoPath tp), FsExists (audioPath tp),
            Ffmpeg (combine_command (videoPath tp) (audioPath tp) out options),
            FsExists out] \<and>
         prefix (calls w2) (calls w3) \<and>
         (\<not> prefix (tempDir tp) out \<longrightarrow> fs_exists (fs w3) out)"
proof -
  have result: "processMedia fm env be vs as out options w = (Inl ce, w3)"
    using assms by (simp add: processMedia_def)
  have kind: "\<exists>es. ce = CleanupError es \<and> es \<noteq> []"
    using assms(3) by (cases rule: cleanup_cases [of env tp w2]) auto
  note verified = processMedia_try_Inr [OF assms(2)]
  have later: "prefix (calls w2) (calls w3)"
    using assms(3) by (rule cleanup_calls)
  have kept: "fs_exists (fs w3) out" if outside: "\<not> prefix (tempDir tp) out"
  proof -
    from createTemporaryPaths_Inr(1) [OF assms(1)]
    have "prefix (tempDir tp) (videoPath tp)" "prefix (tempDir tp) (audioPath tp)" by simp_all
    with outside have "out \<noteq> videoPath tp" "out \<noteq> audioPath tp" by auto
    with cleanup_frame [OF assms(3) outside] verified(1) show ?thesis
      by (simp add: fs_exists_def)
  qed
  from result kind verified later kept show ?thesis by blast
qed

theorem cleanup_failure_rejects_verified_run_witness:
  "fst (createTemporaryPaths (fileManager ex_downloader) ex_env_busy ex_world) = Inr ex_paths \<and>
   fst (processMedia_try ex_env_busy ex_backend ex_video_stream ex_audio_stream ex_output
          ex_processing_options ex_paths
          (snd (createTemporaryPaths (fileManager ex_downloader) ex_env_busy ex_world))) = Inr () \<and>
   fst (processMedia (fileManager ex_downloader) ex_env_busy ex_backend ex_video_stream ex_audio_stream
          ex_output ex_processing_options ex_world) =
     Inl (CleanupError
       [Error ''Failed to delete temporary file /tmp/ytdownload_1700/temp_video_1700.mp4: EBUSY: resource busy or locked'',
        Error ''Failed to delete temporary file /tmp/ytdownload_1700/temp_audio_1700.aac: EBUSY: resource busy or locked'']) \<and>
   fs_exists (fs (snd (processMedia (fileManager ex_downloader) ex_env_busy ex_backend ex_video_stream
          ex_audio_stream ex_output ex_processing_options ex_world))) ex_output"
proof -
  let ?w1 = "snd (createTemporaryPaths (fileManager ex_downloader) ex_env_busy ex_world)"
  let ?w2 = "snd (processMedia_try ex_env_busy ex_backend ex_video_stream ex_audio_stream ex_output
                    ex_processing_options ex_paths ?w1)"
  let ?w3 = "snd (cleanupTemporaryFiles ex_env_busy ex_paths ?w2)"
  let ?ce = "CleanupError
       [Error ''Failed to delete temporary file /tmp/ytdownload_1700/temp_video_1700.mp4: EBUSY: resource busy or locked'',
        Error ''Failed to delete temporary file /tmp/ytdownload_1700/temp_audio_1700.aac: EBUSY: resource busy or locked'']"
  have f1: "fst (createTemporaryPaths (fileManager ex_downloader) ex_env_busy ex_world) = Inr ex_paths"
    by (simp add: run_eval ex_defs)
  have f2: "fst (processMedia_try ex_env_busy ex_backend ex_video_stream ex_audio_stream ex_output
              ex_processing_options ex_paths ?w1) = Inr ()"
    by (simp add: run_eval fs_eval ex_defs)
  have f3: "fst (cleanupTemporaryFiles ex_env_busy ex_paths ?w2) = Inl ?ce"
    by (simp add: run_eval fs_eval ex_defs)
  note t = cleanup_failure_rejects_verified_run [OF pair_fst_snd [OF f1] pair_fst_snd [OF f2]
             pair_fst_snd [OF f3]]
  from t have r: "processMedia (fileManager ex_downloader) ex_env_busy ex_backend ex_video_stream
      ex_audio_stream ex_output ex_processing_options ex_world = (Inl ?ce, ?w3)"
    by (rule conjunct1)
  have "\<not> prefix (tempDir ex_paths) ex_output"
    by (simp add: ex_paths_def ex_output_def)
  with t have "fs_exists (fs ?w3) ex_output" by blast
  with r f1 f2 show ?thesis by simp
qed

text \<open>
  The errors of the \<open>try\<close> block and the errors that the cleanup collects are told
  apart by their messages: the latter all start with \<open>Failed to\<close>.
\<close>

lemma settle_error:
  "settle be pfx c w = (Inl e, w') \<Longrightarrow> \<exists>m. e = Error (pfx @ m)"
  by (auto simp: settle_def Let_def split: sum.splits)

lemma transcode_both_error:
  assumes "transcode_both be vs as tp options w = (Inl e, w')"
  shows "\<exists>m. e = Error (''Video processing failed: '' @ m) \<or> e = Error (''Audio processing failed: '' @ m)"
proof -
  let ?vcmd = "video_command vs (videoPath tp) options"
  let ?acmd = "audio_command as (audioPath tp) options"
  let ?w1 = "spawn ?acmd (spawn ?vcmd w)"
  show ?thesis
  proof (cases "video_first be")
    case True
    show ?thesis
    proof (cases "settle be ''Video processing failed: '' ?vcmd ?w1")
      case (Pair r w2)
      show ?thesis
      proof (cases r)
        case (Inl e1)
        with Pair True assms have "e = e1" by (simp add: transcode_both_def Let_def)
        with Pair Inl settle_error [of be "''Video processing failed: ''" ?vcmd ?w1 e1 w2]
        show ?thesis by auto
      next
        case (Inr u)
        with Pair True assms
        have "settle be ''Audio processing failed: '' ?acmd w2 = (Inl e, w')"
          by (simp add: transcode_both_def Let_def)
        from settle_error [OF this] show ?thesis by auto
      qed
    qed
  next
    case False
    show ?thesis
    proof (cases "settle be ''Audio processing failed: '' ?acmd ?w1")
      case (Pair r w2)
      show ?thesis
      proof (cases r)
        case (Inl e1)
        with Pair False assms have "e = e1" by (simp add: transcode_both_def Let_def)
        with Pair Inl settle_error [of be "''Audio processing failed: ''" ?acmd ?w1 e1 w2]
        show ?thesis by auto
      next
        case (Inr u)
        with Pair False assms
        have "settle be ''Video processing failed: '' ?vcmd w2 = (Inl e, w')"
          by (simp add: transcode_both_def Let_def)
        from settle_error [OF this] show ?thesis by auto
      qed
    qed
  qed
qed

lemma processMedia_try_error:
  assumes "processMedia_try env be vs as out options tp w = (Inl e, w')"
  shows "\<exists>c m. e = Error (c # m) \<and> c \<noteq> CHR ''F''"
proof (cases "transcode_both be vs as tp options w")
  case tb: (Pair r1 w1)
  show ?thesis
  proof (cases r1)
    case (Inl e1)
    with tb assms have "e = e1" by (simp add: processMedia_try_def)
    with tb Inl transcode_both_error [of be vs as tp options w e1 w1] show ?thesis by auto
  next
    case r1: (Inr u1)
    show ?thesis
    proof (cases "verifyTemporaryFiles tp w1")
      case vt: (Pair r2 w2)
      show ?thesis
      proof (cases r2)
        case (Inl e2)
        with tb r1 vt assms have "e = e2" by (simp add: processMedia_try_def)
        with vt Inl show ?thesis
          by (auto simp: verifyTemporaryFiles_unfold split: if_splits)
      next
        case r2: (Inr u2)
        show ?thesis
        proof (cases "combineStreams be (videoPath tp) (audioPath tp) out options w2")
          case cs: (Pair r3 w3)
          show ?thesis
          proof (cases r3)
            case (Inl e3)
            with tb r1 vt r2 cs assms have "e = e3" by (simp add: processMedia_try_def)
            with cs Inl
              settle_error [of be "''Stream combination failed: ''"
                "combine_command (videoPath tp) (audioPath tp) out options"
                "spawn (combine_command (videoPath tp) (audioPath tp) out options) w2" e3 w3]
            show ?thesis by (auto simp: combineStreams_def Let_def)
          next
            case (Inr u3)
            with tb r1 vt r2 cs assms have "verifyOutputFile out w3 = (Inl e, w')"
              by (simp add: processMedia_try_def)
            then show ?thesis by (auto simp: verifyOutputFile_unfold split: if_splits)
          qed
        qed
      qed
    qed
  qed
qed

lemma delete_files_errors_form:
  assumes "delete_files env ps errs w = (errs', w')" "\<forall>x\<in>set errs. \<exists>m. x = Error (CHR ''F'' # m)"
  shows "\<forall>x\<in>set errs'. \<exists>m. x = Error (CHR ''F'' # m)"
  using assms
proof (induction ps arbitrary: errs w)
  case Nil
  then show ?case by simp
next
  case (Cons p ps)
  show ?case
  proof (cases "fs_exists (fs w) p")
    case False
    with Cons.prems(1) have "delete_files env ps errs (log_call (FsExists p) w) = (errs', w')"
      by (simp add: delete_files_Cons)
    from Cons.IH [OF this Cons.prems(2)] show ?thesis .
  next
    case True
    show ?thesis
    proof (cases "fs_unlink env p (fs w)")
      case (Inl e)
      let ?new = "Error (''Failed to delete temporary file '' @ render p @ '': '' @ describe e)"
      from True Inl Cons.prems(1)
      have step: "delete_files env ps (errs @ [?new])
              (log_call (FsUnlink p) (log_call (FsExists p) w)) = (errs', w')"
        by (simp add: delete_files_Cons)
      from Cons.prems(2) have "\<forall>x\<in>set (errs @ [?new]). \<exists>m. x = Error (CHR ''F'' # m)" by simp
      from Cons.IH [OF step this] show ?thesis .
    next
      case (Inr f)
      with True Cons.prems(1)
      have "delete_files env ps errs ((log_call (FsUnlink p) (log_call (FsExists p) w))\<lparr>fs := f\<rparr>) = (errs', w')"
        by (simp add: delete_files_Cons)
      from Cons.IH [OF this Cons.prems(2)] show ?thesis .
    qed
  qed
qed

lemma cleanup_error_form:
  assumes "cleanupTemporaryFiles env paths w = (Inl ce, w')"
  shows "\<exists>es. ce = CleanupError es \<and> es \<noteq> [] \<and> (\<forall>x\<in>set es. \<exists>m. x = Error (CHR ''F'' # m))"
proof -
  obtain errors1 w1 r where df: "delete_files env [videoPath paths, audioPath paths] [] w = (errors1, w1)"
    and rd: "remove_directory env (tempDir paths) w1 = (r, snd (cleanupTemporaryFiles env paths w))"
    by (rule cleanup_parts)
  from delete_files_errors_form [OF df] have form: "\<forall>x\<in>set errors1. \<exists>m. x = Error (CHR ''F'' # m)"
    by simp
  from assms have rd': "remove_directory env (tempDir paths) w1 = (r, w')" using rd by simp
  show ?thesis
  proof (cases r)
    case (Inl e)
    with assms df rd' form show ?thesis
      by (auto simp: cleanupTemporaryFiles_def Let_def split: if_splits)
  next
    case (Inr u)
    with assms df rd' form show ?thesis
      by (auto simp: cleanupTemporaryFiles_def Let_def split: if_splits)
  qed
qed

text \<open>
  Claim C3 (what the code does instead): when the \<open>try\<close> block of
  \<open>processMedia\<close> fails and the cleanup in the \<open>catch\<close> block raises, the
  \<open>throw error\<close> after it is never reached. \<open>processMedia\<close> rejects with the
  \<open>CleanupError\<close>, which is a different error and does not hold the primary error
  among its collected errors. In the example the video transcode fails while the
  audio process, still running, has its file open; the caller of \<open>downloadVideo\<close>
  gets a message that does not mention the transcode failure.
\<close>

theorem cleanup_error_replaces_primary_error:
  assumes "createTemporaryPaths fm env w = (Inr tp, w1)"
    and "processMedia_try env be vs as out options tp w1 = (Inl e, w2)"
    and "cleanupTemporaryFiles env tp w2 = (Inl ce, w3)"
  shows "processMedia fm env be vs as out options w = (Inl ce, w3) \<and>
         ce \<noteq> e \<and>
         (\<exists>es. ce = CleanupError es \<and> es \<noteq> [] \<and> e \<notin> set es)"
proof -
  have result: "processMedia fm env be vs as out options w = (Inl ce, w3)"
    using assms by (simp add: processMedia_def)
  from processMedia_try_error [OF assms(2)] obtain c m where e: "e = Error (c # m)" "c \<noteq> CHR ''F''"
    by blast
  from cleanup_error_form [OF assms(3)] obtain es where es: "ce = CleanupError es" "es \<noteq> []"
    "\<forall>x\<in>set es. \<exists>m. x = Error (CHR ''F'' # m)" by blast
  from e es(3) have "e \<notin> set es" by auto
  with result e es show ?thesis by auto
qed

theorem cleanup_error_replaces_primary_error_witness:
  "fst (createTemporaryPaths (fileManager ex_downloader) ex_env_busy ex_world) = Inr ex_paths \<and>
   fst (processMedia_try ex_env_busy ex_backend_video_fails ex_video_stream ex_audio_stream ex_output
          ex_processing_options ex_paths
          (snd (createTemporaryPaths (fileManager ex_downloader) ex_env_busy ex_world))) =
     Inl (Error ''Video processing failed: ffmpeg exited with code 1'') \<and>
   fst (processMedia (fileManager ex_downloader) ex_env_busy ex_backend_video_fails ex_video_stream
          ex_audio_stream ex_output ex_processing_options ex_world) =
     Inl (CleanupError
       [Error ''Failed to delete temporary file /tmp/ytdownload_1700/temp_audio_1700.aac: EBUSY: resource busy or locked'']) \<and>
   fst (fst (downloadVideo ex_downloader ex_ytdl ex_env_busy ex_backend_video_fails ex_data ex_url
          ex_output ex_options True ex_world)) =
     Inl (Error (''Download failed: Multiple errors occurred during cleanup:'' @ [CHR 0x0A] @
       ''- Failed to delete temporary file /tmp/ytdownload_1700/temp_audio_1700.aac: EBUSY: resource busy or locked''))"
proof -
  let ?w1 = "snd (createTemporaryPaths (fileManager ex_downloader) ex_env_busy ex_world)"
  let ?w2 = "snd (processMedia_try ex_env_busy ex_backend_video_fails ex_video_stream ex_audio_stream
                    ex_output ex_processing_options ex_paths ?w1)"
  let ?w3 = "snd (cleanupTemporaryFiles ex_env_busy ex_paths ?w2)"
  let ?ce = "CleanupError
       [Error ''Failed to delete temporary file /tmp/ytdownload_1700/temp_audio_1700.aac: EBUSY: resource busy or locked'']"
  have f1: "fst (createTemporaryPaths (fileManager ex_downloader) ex_env_busy ex_world) = Inr ex_paths"
    by (simp add: run_eval ex_defs)
  have f2: "fst (processMedia_try ex_env_busy ex_backend_video_fails ex_video_stream ex_audio_stream
              ex_output ex_processing_options ex_paths ?w1) =
            Inl (Error ''Video processing failed: ffmpeg exited with code 1'')"
    by (simp add: run_eval fs_eval ex_defs)
  have f3: "fst (cleanupTemporaryFiles ex_env_busy ex_paths ?w2) = Inl ?ce"
    by (simp add: run_eval fs_eval ex_defs)
  have f4: "fst (fst (downloadVideo ex_downloader ex_ytdl ex_env_busy ex_backend_video_fails ex_data ex_url
          ex_output ex_options True ex_world)) =
     Inl (Error (''Download failed: Multiple errors occurred during cleanup:'' @ [CHR 0x0A] @
       ''- Failed to delete temporary file /tmp/ytdownload_1700/temp_audio_1700.aac: EBUSY: resource busy or locked''))"
    by (simp add: dl_eval run_eval fs_eval ex_defs)
  from cleanup_error_replaces_primary_error [OF pair_fst_snd [OF f1] pair_fst_snd [OF f2]
         pair_fst_snd [OF f3]]
  have "processMedia (fileManager ex_downloader) ex_env_busy ex_backend_video_fails ex_video_stream
          ex_audio_stream ex_output ex_processing_options ex_world = (Inl ?ce, ?w3)"
    by (rule conjunct1)
  with f1 f2 f4 show ?thesis by simp
qed

text \<open>
  A failed video transcode and the mux: whichever of the two transcodes settles first,
  \<open>processMedia\<close> rejects, its world is the one the cleanup pass of the \<open>catch\<close>
  block leaves, and the only ffmpeg processes it started are the two transcodes.
\<close>

lemma video_failure_skips_mux:
  assumes "createTemporaryPaths fm env w = (Inr tp, w1)"
    and "job_result (run be (video_command vs (videoPath tp) options)) = Inl m"
  shows "(\<exists>e. fst (processMedia fm env be vs as out options w) = Inl e) \<and>
         snd (processMedia fm env be vs as out options w) =
           snd (cleanupTemporaryFiles env tp (snd (processMedia_try env be vs as out options tp w1))) \<and>
         map fst (jobs (snd (processMedia fm env be vs as out options w))) =
           map fst (jobs w) @ [video_command vs (videoPath tp) options,
                               audio_command as (audioPath tp) options] \<and>
         (\<forall>v a p. combine_command v a p options \<notin>
            set (drop (length (jobs w)) (map fst (jobs (snd (processMedia fm env be vs as out options w))))))"
proof -
  let ?attempt = "processMedia_try env be vs as out options tp w1"
  let ?cl = "cleanupTemporaryFiles env tp (snd ?attempt)"
  from processMedia_try_video_fails(1) [OF assms(2), of env as out w1]
  obtain e where e: "fst ?attempt = Inl e" ..
  then have tr: "?attempt = (Inl e, snd ?attempt)" by (rule pair_fst_snd)
  have pm: "processMedia fm env be vs as out options w =
              (case fst ?cl of Inl ce \<Rightarrow> Inl ce | Inr u \<Rightarrow> Inl e, snd ?cl)"
    using assms(1) tr by (cases ?cl) (auto simp: processMedia_def split: sum.splits prod.splits)
  have rejected: "\<exists>e. fst (processMedia fm env be vs as out options w) = Inl e"
    unfolding pm by (cases "fst ?cl") simp_all
  have world: "snd (processMedia fm env be vs as out options w) = snd ?cl"
    unfolding pm by simp
  have "jobs (snd ?cl) = jobs (snd ?attempt)"
    by (rule cleanup_jobs [of env tp "snd ?attempt" "fst ?cl"]) simp
  with processMedia_try_video_fails(2) [OF assms(2), of env as out w1]
    createTemporaryPaths_Inr(2) [OF assms(1)] world
  have started: "map fst (jobs (snd (processMedia fm env be vs as out options w))) =
           map fst (jobs w) @ [video_command vs (videoPath tp) options,
                               audio_command as (audioPath tp) options]"
    by simp
  from rejected world started show ?thesis by simp
qed

lemma length_set_status [simp]: "length (set_status c st js) = length js"
  by (simp add: set_status_def)

lemma set_status_append: "set_status c st (js @ ks) = set_status c st js @ set_status c st ks"
  by (simp add: set_status_def)

lemma transcode_both_video_fails_first:
  assumes "job_result (run be (video_command vs (videoPath tp) options)) = Inl m"
    and "video_first be"
  shows "fst (transcode_both be vs as tp options w) = Inl (Error (''Video processing failed: '' @ m))"
    and "drop (length (jobs w)) (jobs (snd (transcode_both be vs as tp options w))) =
           [(video_command vs (videoPath tp) options, Failed),
            (audio_command as (audioPath tp) options, Running)]"
  using assms
  by (simp_all add: transcode_both_def settle_def Let_def set_status_append set_status_def)

text \<open>
  Claim C4 (what the code does instead): when the video-track transcode fails first,
  \<open>Promise.all\<close> rejects and \<open>processMedia\<close> goes through its cleanup pass and
  rejects, without a mux step, but nothing cancels the sibling: of the processes
  this run started, the video transcode has failed and the audio transcode is still
  running when \<open>processMedia\<close> has rejected. No process is killed and no third
  process (the mux) is started.
\<close>

theorem video_failure_leaves_audio_running:
  assumes "createTemporaryPaths fm env w = (Inr tp, w1)"
    and "job_result (run be (video_command vs (videoPath tp) options)) = Inl m"
    and "video_first be"
  shows "(\<exists>e. fst (processMedia fm env be vs as out options w) = Inl e) \<and>
         drop (length (jobs w)) (jobs (snd (processMedia fm env be vs as out options w))) =
           [(video_command vs (videoPath tp) options, Failed),
            (audio_command as (audioPath tp) options, Running)]"
proof -
  let ?attempt = "processMedia_try env be vs as out options tp w1"
  let ?cl = "cleanupTemporaryFiles env tp (snd ?attempt)"
  let ?primary = "Error (''Video processing failed: '' @ m)"
  from transcode_both_video_fails_first [OF assms(2,3), where as = as and w = w1]
  have tb: "fst (transcode_both be vs as tp options w1) = Inl ?primary"
    and js: "drop (length (jobs w1)) (jobs (snd (transcode_both be vs as tp options w1))) =
           [(video_command vs (videoPath tp) options, Failed),
            (audio_command as (audioPath tp) options, Running)]"
    by simp_all
  from tb have attempt: "?attempt = (Inl ?primary, snd (transcode_both be vs as tp options w1))"
    by (cases "transcode_both be vs as tp options w1") (simp add: processMedia_try_def)
  have pm: "processMedia fm env be vs as out options w =
              (case fst ?cl of Inl ce \<Rightarrow> Inl ce | Inr u \<Rightarrow> Inl ?primary, snd ?cl)"
    using assms(1) attempt by (cases ?cl) (auto simp: processMedia_def split: sum.splits prod.splits)
  have rejected: "\<exists>e. fst (processMedia fm env be vs as out options w) = Inl e"
    unfolding pm by (cases "fst ?cl") simp_all
  have "jobs (snd ?cl) = jobs (snd ?attempt)"
    by (rule cleanup_jobs [of env tp "snd ?attempt" "fst ?cl"]) simp
  with attempt have "jobs (snd ?cl) = jobs (snd (transcode_both be vs as tp options w1))" by simp
  with js createTemporaryPaths_Inr(2) [OF assms(1)] pm
  have "drop (length (jobs w)) (jobs (snd (processMedia fm env be vs as out options w))) =
           [(video_command vs (videoPath tp) options, Failed),
            (audio_command as (audioPath tp) options, Running)]"
    by simp
  with rejected show ?thesis by simp
qed

theorem video_failure_leaves_audio_running_witness:
  "fst (createTemporaryPaths (fileManager ex_downloader) ex_env ex_world) = Inr ex_paths \<and>
   job_result (run ex_backend_video_fails
     (video_command ex_video_stream (videoPath ex_paths) ex_processing_options)) =
     Inl ''ffmpeg exited with code 1'' \<and>
   video_first ex_backend_video_fails \<and>
   fst (processMedia (fileManager ex_downloader) ex_env ex_backend_video_fails ex_video_stream
          ex_audio_stream ex_output ex_processing_options ex_world) =
     Inl (Error ''Video processing failed: ffmpeg exited with code 1'') \<and>
   jobs (snd (processMedia (fileManager ex_downloader) ex_env ex_backend_video_fails ex_video_stream
          ex_audio_stream ex_output ex_processing_options ex_world)) =
     [(video_command ex_video_stream (videoPath ex_paths) ex_processing_options, Failed),
      (audio_command ex_audio_stream (audioPath ex_paths) ex_processing_options, Running)]"
proof -
  have f1: "fst (createTemporaryPaths (fileManager ex_downloader) ex_env ex_world) = Inr ex_paths"
    by (simp add: run_eval ex_defs)
  have f2: "job_result (run ex_backend_video_fails
     (video_command ex_video_stream (videoPath ex_paths) ex_processing_options)) =
     Inl ''ffmpeg exited with code 1''"
    by (simp add: ex_backend_video_fails_def)
  have f3: "video_first ex_backend_video_fails"
    by (simp add: ex_backend_video_fails_def)
  have f4: "fst (processMedia (fileManager ex_downloader) ex_env ex_backend_video_fails ex_video_stream
          ex_audio_stream ex_output ex_processing_options ex_world) =
     Inl (Error ''Video processing failed: ffmpeg exited with code 1'')"
    by (simp add: run_eval fs_eval ex_defs)
  have "jobs ex_world = []" by (simp add: ex_world_def)
  with video_failure_leaves_audio_running [OF pair_fst_snd [OF f1] f2 f3, of ex_audio_stream ex_output]
  have "jobs (snd (processMedia (fileManager ex_downloader) ex_env ex_backend_video_fails ex_video_stream
          ex_audio_stream ex_output ex_processing_options ex_world)) =
     [(video_command ex_video_stream (videoPath ex_paths) ex_processing_options, Failed),
      (audio_command ex_audio_stream (audioPath ex_paths) ex_processing_options, Running)]"
    by simp
  with f1 f2 f3 f4 show ?thesis by simp
qed

text \<open>
  Claim C5 (as amended): the command that \<open>processVideoStream\<close> starts carries the
  video codec \<open>copy\<close> unless the options give a non-empty \<open>videoCodec\<close>, and the
  command that \<open>processAudioStream\<close> starts carries the audio codec \<open>aac\<close> unless
  the options give a non-empty \<open>audioCodec\<close>; an override is passed on unchanged.
\<close>

theorem transcode_default_codecs:
  "calls (snd (processVideoStream be vs vp options w)) =
     calls w @ [Ffmpeg (video_command vs vp options)] \<and>
   cmd_videoCodec (video_command vs vp options) =
     Some (case po_videoCodec options of None \<Rightarrow> ''copy'' | Some c \<Rightarrow> if c = [] then ''copy'' else c) \<and>
   cmd_audioCodec (video_command vs vp options) = None \<and>
   calls (snd (processAudioStream be as ap options w)) =
     calls w @ [Ffmpeg (audio_command as ap options)] \<and>
   cmd_audioCodec (audio_command as ap options) =
     Some (case po_audioCodec options of None \<Rightarrow> ''aac'' | Some c \<Rightarrow> if c = [] then ''aac'' else c) \<and>
   cmd_videoCodec (audio_command as ap options) = None"
  by (simp add: processVideoStream_def processAudioStream_def Let_def or_else_def)

theorem transcode_default_codecs_witness:
  "calls (snd (processVideoStream ex_backend ex_video_stream (videoPath ex_paths) ex_processing_options ex_world)) =
     [Ffmpeg (video_command ex_video_stream (videoPath ex_paths) ex_processing_options)] \<and>
   cmd_videoCodec (video_command ex_video_stream (videoPath ex_paths) ex_processing_options) = Some ''copy'' \<and>
   calls (snd (processAudioStream ex_backend ex_audio_stream (audioPath ex_paths) ex_processing_options ex_world)) =
     [Ffmpeg (audio_command ex_audio_stream (audioPath ex_paths) ex_processing_options)] \<and>
   cmd_audioCodec (audio_command ex_audio_stream (audioPath ex_paths) ex_processing_options) = Some ''aac''"
  using transcode_default_codecs [of ex_backend ex_video_stream "videoPath ex_paths"
          ex_processing_options ex_world ex_audio_stream "audioPath ex_paths"]
  by (simp add: ex_processing_options_def ex_world_def)

theorem audio_default_codec_counterexample:
  "po_audioCodec ex_processing_options = None \<and>
   calls (snd (processAudioStream ex_backend ex_audio_stream (audioPath ex_paths) ex_processing_options ex_world)) =
     [Ffmpeg (audio_command ex_audio_stream (audioPath ex_paths) ex_processing_options)] \<and>
   cmd_audioCodec (audio_command ex_audio_stream (audioPath ex_paths) ex_processing_options) = Some ''aac'' \<and>
   cmd_audioCodec (audio_command ex_audio_stream (audioPath ex_paths) ex_processing_options) \<noteq> Some ''copy''"
  by (simp add: processAudioStream_def Let_def or_else_def ex_processing_options_def ex_world_def)

section \<open>Successful runs\<close>

lemma fs_children_empty:
  assumes "fs_children f d = []" "strict_prefix d q"
  shows "map_of f q = None"
proof (rule ccontr)
  assume "map_of f q \<noteq> None"
  then obtain n where "map_of f q = Some n" by auto
  then have "(q, n) \<in> set f" by (rule map_of_SomeD)
  with assms(2) have "(q, n) \<in> set (filter (\<lambda>e. strict_prefix d (fst e)) f)" by simp
  with assms(1) show False by (auto simp: fs_children_def)
qed

lemma remove_directory_clears:
  assumes "remove_directory env d w = (Inr u, w')" "fs_exists (fs w) d" "prefix d q"
  shows "map_of (fs w') q = None"
proof (cases "q = d")
  case True
  with remove_directory_removed [OF assms(1)] show ?thesis by simp
next
  case False
  with assms(3) have sp: "strict_prefix d q" by (simp add: strict_prefix_def)
  from assms(1,2) sp assms(3) show ?thesis
    by (auto simp: remove_directory_unfold Let_def fs_rm_rf_Inr fs_rmdir_Inr fs_readdir_def
             split: if_splits sum.splits option.splits node.splits
             dest: fs_children_empty)
qed

lemma cleanup_clears:
  assumes "cleanupTemporaryFiles env paths w = (Inr u, w')"
    and "fs_exists (fs w) (tempDir paths)"
    and "videoPath paths \<noteq> tempDir paths" "audioPath paths \<noteq> tempDir paths"
    and "prefix (tempDir paths) q"
  shows "map_of (fs w') q = None"
proof -
  obtain w1 v where df: "delete_files env [videoPath paths, audioPath paths] [] w = ([], w1)"
    and rd: "remove_directory env (tempDir paths) w1 = (Inr v, w')"
    using assms(1) by (cases rule: cleanup_cases [of env paths w]) auto
  from delete_files_frame [OF df, of "tempDir paths"] assms(2,3,4)
  have "fs_exists (fs w1) (tempDir paths)" by (auto simp: fs_exists_def)
  from remove_directory_clears [OF rd this assms(5)] show ?thesis .
qed

text \<open>
  What a successful run leaves: the output file exists, nothing exists at or below the
  workspace root, and every entry outside the root that existed before the run is as
  it was.
\<close>

lemma processMedia_success:
  assumes "processMedia fm env be vs as out options w = (Inr u, w')"
    and "\<not> prefix (baseTempDir fm) out"
  shows "fs_exists (fs w') out"
    and "\<And>q. prefix (baseTempDir fm) q \<Longrightarrow> \<not> fs_exists (fs w') q"
    and "\<And>q n. \<not> prefix (baseTempDir fm) q \<Longrightarrow> map_of (fs w) q = Some n \<Longrightarrow> map_of (fs w') q = Some n"
proof -
  obtain tp w1 w2 where ctp: "createTemporaryPaths fm env w = (Inr tp, w1)"
    and tr: "processMedia_try env be vs as out options tp w1 = (Inr (), w2)"
    and cl: "cleanupTemporaryFiles env tp w2 = (Inr (), w')"
    using assms(1) by (cases rule: processMedia_cases [of fm env w be vs as out options]) auto
  note tp = createTemporaryPaths_Inr [OF ctp]
  from tp(1) have root: "tempDir tp = baseTempDir fm"
    and inside: "prefix (tempDir tp) (videoPath tp)" "prefix (tempDir tp) (audioPath tp)"
    and differ: "videoPath tp \<noteq> tempDir tp" "audioPath tp \<noteq> tempDir tp"
    by simp_all
  have keeps: "map_of (fs w2) q = Some n" if "map_of (fs w1) q = Some n" for q n
    using processMedia_try_keeps [OF that, of env be vs as out options tp] tr by simp
  have frame: "map_of (fs w') q = map_of (fs w2) q" if "\<not> prefix (baseTempDir fm) q" for q
  proof -
    from that inside root have "q \<noteq> videoPath tp" "q \<noteq> audioPath tp" by auto
    with cleanup_frame [OF cl, of q] that root show ?thesis by simp
  qed
  from processMedia_try_Inr(1) [OF tr] frame [OF assms(2)]
  show "fs_exists (fs w') out" by (simp add: fs_exists_def)
  from tp(4) have "fs_exists (fs w2) (tempDir tp)"
    using keeps [of "tempDir tp"] root by (auto simp: fs_exists_def)
  from cleanup_clears [OF cl this differ] root
  show "\<not> fs_exists (fs w') q" if "prefix (baseTempDir fm) q" for q
    using that by (simp add: fs_exists_def)
  show "map_of (fs w') q = Some n" if "\<not> prefix (baseTempDir fm) q" "map_of (fs w) q = Some n" for q n
    using frame [OF that(1)] keeps [OF tp(5) [OF that(2)]] by simp
qed

lemma rethrow_simps [simp]:
  "snd (rethrow pfx r) = snd r"
  "(fst (rethrow pfx r) = Inr v) = (fst r = Inr v)"
  by (auto simp: rethrow_def split: prod.splits sum.splits)

lemma getVideoInfo_world [simp]:
  "fs (snd (getVideoInfo y url w)) = fs w"
  "jobs (snd (getVideoInfo y url w)) = jobs w"
  by (auto simp: getVideoInfo_def log_call_def Let_def split: sum.splits bool.splits option.splits)

lemma createStreams_world [simp]:
  "fs (snd (createStreams y url so onp w)) = fs w"
  "jobs (snd (createStreams y url so onp w)) = jobs w"
  by (auto simp: createStreams_def createProgressTrackingStream_def log_call_def Let_def
           split: sum.splits bool.splits option.splits prod.splits)

lemma downloadVideo_Inr:
  assumes "fst (fst (downloadVideo d y env be data url out options onProgress w)) = Inr u"
  obtains streams :: Streams and w2 :: world where
    "fs w2 = fs w"
    "processMedia (fileManager d) env be (st_videoStream streams) (st_audioStream streams) out
       \<lparr>po_videoCodec = do_videoCodec options, po_audioCodec = do_audioCodec options,
        po_outputFormat = do_outputFormat options, po_videoBitrate = do_videoBitrate options,
        po_audioBitrate = do_audioBitrate options, po_fps = do_fps options\<rparr> w2 =
     (Inr u, snd (fst (downloadVideo d y env be data url out options onProgress w)))"
proof (cases "getVideoInfo y url w")
  case gi: (Pair r1 w1)
  from gi getVideoInfo_world(1) [of y url w] have fs1: "fs w1 = fs w" by simp
  show ?thesis
  proof (cases r1)
    case (Inl e)
    with gi assms show ?thesis by (simp add: downloadVideo_def rethrow_def)
  next
    case info: (Inr videoInfo)
    show ?thesis
    proof (cases "createStreams y url \<lparr>so_quality = do_quality options, so_format = do_format options\<rparr> True w1")
      case cs: (Pair r2 w2)
      from cs fs1
        createStreams_world(1) [of y url "\<lparr>so_quality = do_quality options, so_format = do_format options\<rparr>" True w1]
      have fs2: "fs w2 = fs w" by simp
      show ?thesis
      proof (cases r2)
        case (Inl e)
        with gi info cs assms show ?thesis by (simp add: downloadVideo_def rethrow_def)
      next
        case (Inr streams)
        let ?pm = "processMedia (fileManager d) env be (st_videoStream streams) (st_audioStream streams) out
           \<lparr>po_videoCodec = do_videoCodec options, po_audioCodec = do_audioCodec options,
            po_outputFormat = do_outputFormat options, po_videoBitrate = do_videoBitrate options,
            po_audioBitrate = do_audioBitrate options, po_fps = do_fps options\<rparr> w2"
        from Inr gi info cs assms have "fst ?pm = Inr u"
          and "snd (fst (downloadVideo d y env be data url out options onProgress w)) = snd ?pm"
          by (simp_all add: downloadVideo_def)
        then have "?pm = (Inr u, snd (fst (downloadVideo d y env be data url out options onProgress w)))"
          by (simp add: prod_eq_iff)
        with fs2 show ?thesis by (rule that [of w2 streams])
      qed
    qed
  qed
qed

text \<open>
  Claim C1 (as amended): a run of processMedia, or of downloadVideo, that completes
  successfully with an output path that is not inside the workspace root leaves the
  output file in place and nothing at or below the workspace root (the root directory
  and both intermediate files are gone); whatever existed outside the root before the
  run is untouched, so the cleanup removed the workspace only.
\<close>

theorem successful_run_leaves_output_only:
  "(processMedia fm env be vs as out options w = (Inr u, w') \<and> \<not> prefix (baseTempDir fm) out \<longrightarrow>
      left_output_only (baseTempDir fm) out w w') \<and>
   (downloadVideo d y env be data url out doptions onProgress w = ((Inr u, w''), events) \<and>
    \<not> prefix (baseTempDir (fileManager d)) out \<longrightarrow>
      left_output_only (baseTempDir (fileManager d)) out w w'')"
proof (intro conjI impI; elim conjE)
  assume "processMedia fm env be vs as out options w = (Inr u, w')" "\<not> prefix (baseTempDir fm) out"
  from processMedia_success [OF this] show "left_output_only (baseTempDir fm) out w w'"
    unfolding left_output_only_def by blast
next
  assume run: "downloadVideo d y env be data url out doptions onProgress w = ((Inr u, w''), events)"
    and outside: "\<not> prefix (baseTempDir (fileManager d)) out"
  from run have "fst (fst (downloadVideo d y env be data url out doptions onProgress w)) = Inr u"
    by simp
  then obtain streams :: Streams and w2 :: world where fs2: "fs w2 = fs w"
    and pm: "processMedia (fileManager d) env be (st_videoStream streams) (st_audioStream streams) out
       \<lparr>po_videoCodec = do_videoCodec doptions, po_audioCodec = do_audioCodec doptions,
        po_outputFormat = do_outputFormat doptions, po_videoBitrate = do_videoBitrate doptions,
        po_audioBitrate = do_audioBitrate doptions, po_fps = do_fps doptions\<rparr> w2 =
     (Inr u, snd (fst (downloadVideo d y env be data url out doptions onProgress w)))"
    by (rule downloadVideo_Inr)
  from pm run have pm': "processMedia (fileManager d) env be (st_videoStream streams) (st_audioStream streams) out
       \<lparr>po_videoCodec = do_videoCodec doptions, po_audioCodec = do_audioCodec doptions,
        po_outputFormat = do_outputFormat doptions, po_videoBitrate = do_videoBitrate doptions,
        po_audioBitrate = do_audioBitrate doptions, po_fps = do_fps doptions\<rparr> w2 = (Inr u, w'')"
    by simp
  from processMedia_success [OF pm' outside] fs2
  show "left_output_only (baseTempDir (fileManager d)) out w w''"
    unfolding left_output_only_def by simp
qed

theorem successful_run_leaves_output_only_witness:
  "fst (processMedia (fileManager ex_downloader) ex_env ex_backend ex_video_stream ex_audio_stream
          ex_output ex_processing_options ex_world) = Inr () \<and>
   fst (fst (downloadVideo ex_downloader ex_ytdl ex_env ex_backend ex_data ex_url ex_output ex_options
          True ex_world)) = Inr () \<and>
   baseTempDir (fileManager ex_downloader) = tempDir ex_paths \<and>
   \<not> prefix (tempDir ex_paths) ex_output \<and>
   left_output_only (tempDir ex_paths) ex_output ex_world
     (snd (processMedia (fileManager ex_downloader) ex_env ex_backend ex_video_stream ex_audio_stream
             ex_output ex_processing_options ex_world)) \<and>
   left_output_only (tempDir ex_paths) ex_output ex_world
     (snd (fst (downloadVideo ex_downloader ex_ytdl ex_env ex_backend ex_data ex_url ex_output ex_options
             True ex_world)))"
proof -
  let ?pm = "processMedia (fileManager ex_downloader) ex_env ex_backend ex_video_stream ex_audio_stream
          ex_output ex_processing_options ex_world"
  let ?dv = "downloadVideo ex_downloader ex_ytdl ex_env ex_backend ex_data ex_url ex_output ex_options
          True ex_world"
  have f1: "fst ?pm = Inr ()"
    by (simp add: run_eval fs_eval ex_defs)
  have f2: "fst (fst ?dv) = Inr ()"
    by (simp add: dl_eval run_eval fs_eval ex_defs)
  have base: "baseTempDir (fileManager ex_downloader) = tempDir ex_paths"
    by (simp add: run_eval ex_defs)
  have outside: "\<not> prefix (tempDir ex_paths) ex_output"
    by (simp add: ex_paths_def ex_output_def)
  have e1: "?pm = (Inr (), snd ?pm)" using f1 by (rule pair_fst_snd)
  have e2: "?dv = ((Inr (), snd (fst ?dv)), snd ?dv)" using f2 by (simp add: prod_eq_iff)
  note t = successful_run_leaves_output_only
    [where fm = "fileManager ex_downloader" and env = ex_env and be = ex_backend
       and vs = ex_video_stream and as = ex_audio_stream and out = ex_output
       and options = ex_processing_options and w = ex_world and u = "()" and w' = "snd ?pm"
       and d = ex_downloader and y = ex_ytdl and data = ex_data and url = ex_url
       and doptions = ex_options and onProgress = True and w'' = "snd (fst ?dv)"
       and events = "snd ?dv"]
  from t e1 e2 outside base
  have "left_output_only (tempDir ex_paths) ex_output ex_world (snd ?pm)"
    and "left_output_only (tempDir ex_paths) ex_output ex_world (snd (fst ?dv))"
    by simp_all
  with f1 f2 base outside show ?thesis by simp
qed

theorem output_inside_workspace_counterexample:
  "fst (processMedia (fileManager ex_downloader) ex_env ex_backend ex_video_stream ex_audio_stream
          (tempDir ex_paths @ [''out.mkv'']) ex_processing_options ex_world) = Inr () \<and>
   \<not> fs_exists
       (fs (snd (processMedia (fileManager ex_downloader) ex_env ex_backend ex_video_stream
                   ex_audio_stream (tempDir ex_paths @ [''out.mkv'']) ex_processing_options ex_world)))
       (tempDir ex_paths @ [''out.mkv''])"
  by (simp add: run_eval fs_eval ex_defs)

section \<open>Workspace names\<close>

lemma digit_char_inj:
  assumes "a < 10" "b < 10" "digit_char a = digit_char b"
  shows "a = b"
proof -
  have "distinct ''0123456789''" by simp
  moreover have "a < length ''0123456789''" "b < length ''0123456789''" using assms by simp_all
  ultimately show ?thesis using assms(3) unfolding digit_char_def
    by (simp only: nth_eq_iff_index_eq)
qed

lemma string_of_nat_nonempty: "string_of_nat n \<noteq> []"
  by (subst string_of_nat.simps) simp

lemma string_of_nat_small: "n < 10 \<Longrightarrow> string_of_nat n = [digit_char n]"
  by (subst string_of_nat.simps) simp

lemma string_of_nat_large:
  "\<not> n < 10 \<Longrightarrow> string_of_nat n = string_of_nat (n div 10) @ [digit_char (n mod 10)]"
  by (subst string_of_nat.simps) simp

lemma string_of_nat_inj: "string_of_nat a = string_of_nat b \<Longrightarrow> a = b"
proof (induction a arbitrary: b rule: string_of_nat.induct)
  case (1 a)
  show ?case
  proof (cases "a < 10")
    case a: True
    show ?thesis
    proof (cases "b < 10")
      case True
      with a "1.prems" show ?thesis
        by (simp add: string_of_nat_small digit_char_inj)
    next
      case False
      with a "1.prems" string_of_nat_nonempty [of "b div 10"] show ?thesis
        by (simp add: string_of_nat_small string_of_nat_large)
    qed
  next
    case a: False
    show ?thesis
    proof (cases "b < 10")
      case True
      with a "1.prems" string_of_nat_nonempty [of "a div 10"] show ?thesis
        by (simp add: string_of_nat_small string_of_nat_large)
    next
      case False
      with a "1.prems" have eq: "string_of_nat (a div 10) = string_of_nat (b div 10)"
        and d: "digit_char (a mod 10) = digit_char (b mod 10)"
        by (simp_all add: string_of_nat_large)
      from "1.IH" [OF a eq] have "a div 10 = b div 10" .
      moreover from d have "a mod 10 = b mod 10" by (intro digit_char_inj) simp_all
      ultimately show ?thesis by (metis div_mult_mod_eq)
    qed
  qed
qed

text \<open>
  FileManagers constructed at different clock readings, with the same temporary
  directory and prefix, have different root directories.
\<close>

lemma distinct_clock_readings_distinct_roots:
  "now1 \<noteq> now2 \<Longrightarrow>
     baseTempDir (new_FileManager tmpdir now1 pfx) \<noteq> baseTempDir (new_FileManager tmpdir now2 pfx)"
  by (auto simp: new_FileManager_def dest: string_of_nat_inj)

section \<open>The directory a run creates\<close>

lemma mkdirs_simps [simp]:
  "mkdirs [] = []"
  "mkdirs (xs @ ys) = mkdirs xs @ mkdirs ys"
  "mkdirs (FsMkdir p # cs) = p # mkdirs cs"
  "mkdirs (FsExists p # cs) = mkdirs cs"
  "mkdirs (FsUnlink p # cs) = mkdirs cs"
  "mkdirs (FsReaddir p # cs) = mkdirs cs"
  "mkdirs (FsRm p # cs) = mkdirs cs"
  "mkdirs (FsRmdir p # cs) = mkdirs cs"
  "mkdirs (Ffmpeg k # cs) = mkdirs cs"
  "mkdirs (NetGetBasicInfo u # cs) = mkdirs cs"
  "mkdirs (NetGetInfo u # cs) = mkdirs cs"
  "mkdirs (NetDownload u f # cs) = mkdirs cs"
  by (simp_all add: mkdirs_def)

lemma delete_files_mkdirs:
  "delete_files env ps errs w = (errs', w') \<Longrightarrow> mkdirs (calls w') = mkdirs (calls w)"
proof (induction ps arbitrary: errs w)
  case Nil
  then show ?case by simp
next
  case (Cons p ps)
  from Cons.prems show ?case
    unfolding delete_files_Cons
    by (auto simp: log_call_def split: if_splits sum.splits dest!: Cons.IH)
qed

lemma remove_directory_mkdirs:
  "remove_directory env d w = (r, w') \<Longrightarrow> mkdirs (calls w') = mkdirs (calls w)"
  by (auto simp: remove_directory_unfold Let_def split: if_splits sum.splits)

lemma cleanup_mkdirs:
  "mkdirs (calls (snd (cleanupTemporaryFiles env paths w))) = mkdirs (calls w)"
proof -
  obtain errors1 w1 r where df: "delete_files env [videoPath paths, audioPath paths] [] w = (errors1, w1)"
    and rd: "remove_directory env (tempDir paths) w1 = (r, snd (cleanupTemporaryFiles env paths w))"
    by (rule cleanup_parts)
  from delete_files_mkdirs [OF df] remove_directory_mkdirs [OF rd] show ?thesis by simp
qed

lemma createTemporaryPaths_mkdirs:
  "mkdirs (calls (snd (createTemporaryPaths fm env w))) = mkdirs (calls w) @ [baseTempDir fm]"
  by (simp add: createTemporaryPaths_unfold split: sum.splits)

lemma processMedia_try_mkdirs:
  "mkdirs (calls (snd (processMedia_try env be vs as out options tp w))) = mkdirs (calls w)"
proof (cases "transcode_both be vs as tp options w")
  case tb: (Pair r1 w1)
  from transcode_both_calls [of be vs as tp options w] tb
  have m1: "mkdirs (calls w1) = mkdirs (calls w)" by simp
  show ?thesis
  proof (cases r1)
    case (Inl e)
    with tb m1 show ?thesis by (simp add: processMedia_try_def)
  next
    case r1: (Inr u1)
    show ?thesis
    proof (cases "verifyTemporaryFiles tp w1")
      case vt: (Pair r2 w2)
      then have m2: "mkdirs (calls w2) = mkdirs (calls w)"
        using m1 by (auto simp: verifyTemporaryFiles_unfold split: if_splits)
      show ?thesis
      proof (cases r2)
        case (Inl e)
        with tb r1 vt m2 show ?thesis by (simp add: processMedia_try_def)
      next
        case r2: (Inr u2)
        show ?thesis
        proof (cases "combineStreams be (videoPath tp) (audioPath tp) out options w2")
          case cs: (Pair r3 w3)
          from combineStreams_calls [of be "videoPath tp" "audioPath tp" out options w2] cs m2
          have m3: "mkdirs (calls w3) = mkdirs (calls w)" by simp
          show ?thesis
          proof (cases r3)
            case (Inl e)
            with tb r1 vt r2 cs m3 show ?thesis by (simp add: processMedia_try_def)
          next
            case (Inr u3)
            with tb r1 vt r2 cs m3 show ?thesis
              by (simp add: processMedia_try_def verifyOutputFile_unfold)
          qed
        qed
      qed
    qed
  qed
qed

text \<open>Every call of processMedia asks for one directory: the root of its FileManager.\<close>

lemma processMedia_mkdirs:
  "mkdirs (calls (snd (processMedia fm env be vs as out options w))) =
     mkdirs (calls w) @ [baseTempDir fm]"
proof (cases "createTemporaryPaths fm env w")
  case ctp: (Pair r0 w1)
  from createTemporaryPaths_mkdirs [of fm env w] ctp
  have m1: "mkdirs (calls w1) = mkdirs (calls w) @ [baseTempDir fm]" by simp
  show ?thesis
  proof (cases r0)
    case (Inl e)
    with ctp m1 show ?thesis by (simp add: processMedia_def)
  next
    case (Inr tp)
    let ?attempt = "processMedia_try env be vs as out options tp w1"
    let ?cl = "cleanupTemporaryFiles env tp (snd ?attempt)"
    have "snd (processMedia fm env be vs as out options w) = snd ?cl"
      using ctp Inr by (cases ?attempt; cases ?cl) (auto simp: processMedia_def split: sum.splits)
    with cleanup_mkdirs [of env tp "snd ?attempt"] processMedia_try_mkdirs [of env be vs as out options tp w1] m1
    show ?thesis by simp
  qed
qed

lemma getVideoInfo_mkdirs [simp]: "mkdirs (calls (snd (getVideoInfo y url w))) = mkdirs (calls w)"
  by (auto simp: getVideoInfo_def log_call_def Let_def rethrow_def
           split: sum.splits bool.splits option.splits)

lemma createStreams_mkdirs [simp]:
  "mkdirs (calls (snd (createStreams y url so onp w))) = mkdirs (calls w)"
  by (auto simp: createStreams_def createProgressTrackingStream_def log_call_def Let_def rethrow_def
           split: sum.splits bool.splits option.splits prod.splits)

lemma downloadVideo_mkdirs:
  assumes "fst (fst (downloadVideo d y env be data url out options sink w)) = Inr u"
  shows "mkdirs (calls (snd (fst (downloadVideo d y env be data url out options sink w)))) =
           mkdirs (calls w) @ [baseTempDir (fileManager d)]"
proof (cases "getVideoInfo y url w")
  case gi: (Pair r1 w1)
  from gi getVideoInfo_mkdirs [of y url w] have m1: "mkdirs (calls w1) = mkdirs (calls w)" by simp
  show ?thesis
  proof (cases r1)
    case (Inl e)
    with gi assms show ?thesis by (simp add: downloadVideo_def rethrow_def)
  next
    case info: (Inr videoInfo)
    show ?thesis
    proof (cases "createStreams y url \<lparr>so_quality = do_quality options, so_format = do_format options\<rparr> True w1")
      case cs: (Pair r2 w2)
      from cs m1
        createStreams_mkdirs [of y url "\<lparr>so_quality = do_quality options, so_format = do_format options\<rparr>" True w1]
      have m2: "mkdirs (calls w2) = mkdirs (calls w)" by simp
      show ?thesis
      proof (cases r2)
        case (Inl e)
        with gi info cs assms show ?thesis by (simp add: downloadVideo_def rethrow_def)
      next
        case (Inr streams)
        with gi info cs m2 show ?thesis
          by (simp add: downloadVideo_def processMedia_mkdirs)
      qed
    qed
  qed
qed

text \<open>
  Claim C7 (what the code does instead): the root directory is named once, in the
  constructor of the FileManager that the YoutubeDownloader constructor makes, and not
  per run. Any two runs of \<open>downloadVideo\<close> through one downloader that complete,
  whatever their inputs and whenever they start, each ask for exactly one directory,
  and it is the same one: the root of that downloader's FileManager. In the example a
  second download through the same downloader, to another output file, recreates
  \<open>/tmp/ytdownload_1700\<close>.
\<close>

theorem runs_through_one_downloader_share_root:
  assumes "fst (fst (downloadVideo d y1 env1 be1 data1 url1 out1 options1 sink1 w1)) = Inr u1"
    and "fst (fst (downloadVideo d y2 env2 be2 data2 url2 out2 options2 sink2 w2)) = Inr u2"
  shows "mkdirs (calls (snd (fst (downloadVideo d y1 env1 be1 data1 url1 out1 options1 sink1 w1)))) =
           mkdirs (calls w1) @ [baseTempDir (fileManager d)] \<and>
         mkdirs (calls (snd (fst (downloadVideo d y2 env2 be2 data2 url2 out2 options2 sink2 w2)))) =
           mkdirs (calls w2) @ [baseTempDir (fileManager d)]"
  using downloadVideo_mkdirs [OF assms(1)] downloadVideo_mkdirs [OF assms(2)] by simp

theorem runs_through_one_downloader_share_root_witness:
  "fst (fst (downloadVideo ex_downloader ex_ytdl ex_env ex_backend ex_data ex_url ex_output ex_options
          True ex_world)) = Inr () \<and>
   fst (fst (downloadVideo ex_downloader ex_ytdl ex_env ex_backend ex_data ex_url [''home'', ''second.mkv'']
          ex_options True
          (snd (fst (downloadVideo ex_downloader ex_ytdl ex_env ex_backend ex_data ex_url ex_output
                       ex_options True ex_world))))) = Inr () \<and>
   baseTempDir (fileManager ex_downloader) = [''tmp'', ''ytdownload_1700''] \<and>
   mkdirs (calls (snd (fst (downloadVideo ex_downloader ex_ytdl ex_env ex_backend ex_data ex_url
          ex_output ex_options True ex_world)))) = [[''tmp'', ''ytdownload_1700'']] \<and>
   mkdirs (calls (snd (fst (downloadVideo ex_downloader ex_ytdl ex_env ex_backend ex_data ex_url
          [''home'', ''second.mkv''] ex_options True
          (snd (fst (downloadVideo ex_downloader ex_ytdl ex_env ex_backend ex_data ex_url ex_output
                       ex_options True ex_world))))))) =
     [[''tmp'', ''ytdownload_1700''], [''tmp'', ''ytdownload_1700'']]"
proof -
  let ?run1 = "downloadVideo ex_downloader ex_ytdl ex_env ex_backend ex_data ex_url ex_output ex_options
          True ex_world"
  let ?run2 = "downloadVideo ex_downloader ex_ytdl ex_env ex_backend ex_data ex_url
          [''home'', ''second.mkv''] ex_options True (snd (fst ?run1))"
  have f1: "fst (fst ?run1) = Inr ()"
    by (simp add: dl_eval run_eval fs_eval ex_defs)
  have f2: "fst (fst ?run2) = Inr ()"
    by (simp add: dl_eval run_eval fs_eval ex_defs)
  have base: "baseTempDir (fileManager ex_downloader) = [''tmp'', ''ytdownload_1700'']"
    by (simp add: run_eval ex_defs)
  have "calls ex_world = []" by (simp add: ex_world_def)
  with runs_through_one_downloader_share_root [OF f1 f2] base
  have "mkdirs (calls (snd (fst ?run1))) = [[''tmp'', ''ytdownload_1700'']]"
    and "mkdirs (calls (snd (fst ?run2))) = [[''tmp'', ''ytdownload_1700''], [''tmp'', ''ytdownload_1700'']]"
    by simp_all
  with f1 f2 base show ?thesis by simp
qed

section \<open>Download progress\<close>

lemmas progress_eval = on_data_def Let_def ex_video_stream_def ex_audio_stream_def ex_data_def

lemma deliver_Cons:
  "deliver ((t, len) # evs) vs as =
     (case t of
        Video \<Rightarrow> snd (on_data len vs) @ deliver evs (fst (on_data len vs)) as
      | Audio \<Rightarrow> snd (on_data len as) @ deliver evs vs (fst (on_data len as)))"
  by (cases t) (simp_all split: prod.splits)

lemma on_data_cases:
  "on_data len s =
     (if rd_listening s
      then (s\<lparr>rd_downloadedBytes := rd_downloadedBytes s + len\<rparr>,
            [\<lparr>dp_downloadedBytes = rd_downloadedBytes s + len, dp_totalBytes = rd_totalBytes s,
              dp_percentage = js_mul (js_div (Num (of_nat (rd_downloadedBytes s + len))) (rd_totalBytes s))
                                (Num 100)\<rparr>])
      else (s, []))"
  by (simp add: on_data_def Let_def)

text \<open>
  Every progress event carries the count of one of the two streams: the bytes that
  stream has delivered so far, never the bytes of both.
\<close>

lemma deliver_event:
  assumes "p \<in> set (deliver data vs as)"
  shows "(dp_downloadedBytes p \<le> rd_downloadedBytes vs + sum_list (map snd (filter (\<lambda>e. fst e = Video) data)) \<and>
          dp_totalBytes p = rd_totalBytes vs \<or>
          dp_downloadedBytes p \<le> rd_downloadedBytes as + sum_list (map snd (filter (\<lambda>e. fst e = Audio) data)) \<and>
          dp_totalBytes p = rd_totalBytes as) \<and>
         dp_percentage p = js_mul (js_div (Num (of_nat (dp_downloadedBytes p))) (dp_totalBytes p)) (Num 100)"
  using assms
proof (induction data arbitrary: vs as)
  case Nil
  then show ?case by simp
next
  case (Cons e data)
  obtain t len where e: "e = (t, len)" by (cases e)
  show ?case
  proof (cases t)
    case Video
    from Cons.prems e Video
    have "p \<in> set (snd (on_data len vs)) \<or> p \<in> set (deliver data (fst (on_data len vs)) as)"
      by (simp add: deliver_Cons)
    then show ?thesis
    proof
      assume "p \<in> set (snd (on_data len vs))"
      with e Video show ?thesis by (auto simp: on_data_cases split: if_splits)
    next
      assume "p \<in> set (deliver data (fst (on_data len vs)) as)"
      from Cons.IH [OF this] e Video show ?thesis
        by (auto simp: on_data_cases split: if_splits)
    qed
  next
    case Audio
    from Cons.prems e Audio
    have "p \<in> set (snd (on_data len as)) \<or> p \<in> set (deliver data vs (fst (on_data len as)))"
      by (simp add: deliver_Cons)
    then show ?thesis
    proof
      assume "p \<in> set (snd (on_data len as))"
      with e Audio show ?thesis by (auto simp: on_data_cases split: if_splits)
    next
      assume "p \<in> set (deliver data vs (fst (on_data len as)))"
      from Cons.IH [OF this] e Audio show ?thesis
        by (auto simp: on_data_cases split: if_splits)
    qed
  qed
qed

text \<open>
  Claim C2 (the code at the failing input): the formats of 1000 and 200 bytes give both
  streams the total 1200, but each stream counts its own chunks from zero. When the
  video arrives in one chunk and then the audio, the events report 1000 of 1200 and
  then 200 of 1200: the last event of the download is at 16.67 percent. In whatever
  order and chunks the 1000 and the 200 bytes arrive, no event reports more than 1000
  bytes or 100 percent.
\<close>

theorem separate_counters_final_progress:
  "fst (createStreams ex_ytdl ex_url \<lparr>so_quality = None, so_format = None\<rparr> True ex_world) =
     Inr \<lparr>st_videoStream = ex_video_stream, st_audioStream = ex_audio_stream, st_totalBytes = Num 1200\<rparr> \<and>
   deliver [(Video, 1000), (Audio, 200)] ex_video_stream ex_audio_stream =
     [\<lparr>dp_downloadedBytes = 1000, dp_totalBytes = Num 1200, dp_percentage = Num (250 / 3)\<rparr>,
      \<lparr>dp_downloadedBytes = 200, dp_totalBytes = Num 1200, dp_percentage = Num (50 / 3)\<rparr>] \<and>
   (\<forall>data. sum_list (map snd (filter (\<lambda>e. fst e = Video) data)) = 1000 \<longrightarrow>
           sum_list (map snd (filter (\<lambda>e. fst e = Audio) data)) = 200 \<longrightarrow>
           (\<forall>p\<in>set (deliver data ex_video_stream ex_audio_stream).
              dp_downloadedBytes p \<le> 1000 \<and> dp_totalBytes p = Num 1200 \<and> dp_percentage p \<noteq> Num 100))"
proof (intro conjI allI impI ballI)
  show "fst (createStreams ex_ytdl ex_url \<lparr>so_quality = None, so_format = None\<rparr> True ex_world) =
     Inr \<lparr>st_videoStream = ex_video_stream, st_audioStream = ex_audio_stream, st_totalBytes = Num 1200\<rparr>"
    by (simp add: dl_eval progress_eval)
  show "deliver [(Video, 1000), (Audio, 200)] ex_video_stream ex_audio_stream =
     [\<lparr>dp_downloadedBytes = 1000, dp_totalBytes = Num 1200, dp_percentage = Num (250 / 3)\<rparr>,
      \<lparr>dp_downloadedBytes = 200, dp_totalBytes = Num 1200, dp_percentage = Num (50 / 3)\<rparr>]"
    by (simp add: progress_eval)
next
  fix data p
  assume v: "sum_list (map snd (filter (\<lambda>e. fst e = Video) data)) = 1000"
    and a: "sum_list (map snd (filter (\<lambda>e. fst e = Audio) data)) = 200"
    and p: "p \<in> set (deliver data ex_video_stream ex_audio_stream)"
  from deliver_event [OF p] v a
  have n: "dp_downloadedBytes p \<le> 1000" and t: "dp_totalBytes p = Num 1200"
    and pc: "dp_percentage p = js_mul (js_div (Num (of_nat (dp_downloadedBytes p))) (dp_totalBytes p)) (Num 100)"
    by (auto simp: ex_video_stream_def ex_audio_stream_def)
  from n show "dp_downloadedBytes p \<le> 1000" .
  from t show "dp_totalBytes p = Num 1200" .
  from n have "(of_nat (dp_downloadedBytes p) :: rat) \<le> 1000"
    by (metis of_nat_le_iff of_nat_numeral)
  then have "(of_nat (dp_downloadedBytes p) :: rat) / 1200 * 100 \<noteq> 100" by simp
  with pc t show "dp_percentage p \<noteq> Num 100" by simp
qed

theorem separate_counters_final_progress_witness:
  "sum_list (map snd (filter (\<lambda>e. fst e = Video) ex_data)) = 1000 \<and>
   sum_list (map snd (filter (\<lambda>e. fst e = Audio) ex_data)) = 200 \<and>
   map dp_downloadedBytes (deliver ex_data ex_video_stream ex_audio_stream) = [600, 200, 1000] \<and>
   list_all (\<lambda>p. dp_downloadedBytes p \<le> 1000 \<and> dp_totalBytes p = Num 1200 \<and> dp_percentage p \<noteq> Num 100)
     (deliver ex_data ex_video_stream ex_audio_stream)"
proof -
  have v: "sum_list (map snd (filter (\<lambda>e. fst e = Video) ex_data)) = 1000"
    and a: "sum_list (map snd (filter (\<lambda>e. fst e = Audio) ex_data)) = 200"
    by (simp_all add: ex_data_def)
  have m: "map dp_downloadedBytes (deliver ex_data ex_video_stream ex_audio_stream) = [600, 200, 1000]"
    by (simp add: progress_eval)
  from separate_counters_final_progress v a
  have "\<forall>p\<in>set (deliver ex_data ex_video_stream ex_audio_stream).
          dp_downloadedBytes p \<le> 1000 \<and> dp_totalBytes p = Num 1200 \<and> dp_percentage p \<noteq> Num 100"
    by blast
  then have "list_all (\<lambda>p. dp_downloadedBytes p \<le> 1000 \<and> dp_totalBytes p = Num 1200 \<and> dp_percentage p \<noteq> Num 100)
     (deliver ex_data ex_video_stream ex_audio_stream)"
    by (simp add: list_all_iff)
  with v a m show ?thesis by simp
qed

text \<open>
  Claim C9 (the code at the failing input): with the video arriving in chunks of 600
  and 400 bytes and the audio chunk of 200 bytes in between, the events of the
  downloading stage report 600, then 200, then 1000 downloaded bytes, and the caller
  of \<open>downloadVideo\<close> sees the percentages 50, 16.67 and 83.33 in that order.
\<close>

theorem downloading_progress_not_monotone:
  "map dp_downloadedBytes (deliver ex_data ex_video_stream ex_audio_stream) = [600, 200, 1000] \<and>
   snd (downloadVideo ex_downloader ex_ytdl ex_env ex_backend ex_data ex_url ex_output ex_options
          True ex_world) =
     [\<lparr>pr_state = Processing, pr_downloadProgress = None\<rparr>,
      \<lparr>pr_state = Downloading, pr_downloadProgress = Some (Num 50)\<rparr>,
      \<lparr>pr_state = Downloading, pr_downloadProgress = Some (Num (50 / 3))\<rparr>,
      \<lparr>pr_state = Downloading, pr_downloadProgress = Some (Num (250 / 3))\<rparr>]"
  by (simp add: dl_eval progress_eval forward_progress_def)

section \<open>The regular expression\<close>

inductive_simps matches_Nomatch [simp]: "matches Nomatch w"
inductive_simps matches_Empty [simp]: "matches Empty w"
inductive_simps matches_Lit [simp]: "matches (Lit c) w"
inductive_simps matches_Dot [simp]: "matches Dot w"
inductive_simps matches_Seq: "matches (Seq r s) w"
inductive_simps matches_Alt [simp]: "matches (Alt r s) w"
inductive_simps matches_Opt [simp]: "matches (Opt r) w"
inductive_cases matches_PlusE: "matches (Plus r) w"

lemma matches_Plus_Nil: "matches (Plus r) [] = matches r []"
proof
  assume "matches (Plus r) []"
  then show "matches r []"
    by (rule matches_PlusE) auto
next
  assume "matches r []"
  then show "matches (Plus r) []" by (rule m_Plus1)
qed

lemma matches_Plus_Cons:
  "matches (Plus r) (c # w) =
     (\<exists>u v. w = u @ v \<and> matches r (c # u) \<and> (v = [] \<or> matches (Plus r) v))"
proof
  assume "matches (Plus r) (c # w)"
  then show "\<exists>u v. w = u @ v \<and> matches r (c # u) \<and> (v = [] \<or> matches (Plus r) v)"
  proof (induction "Plus r" "c # w" arbitrary: w rule: matches.induct)
    case m_Plus1
    then show ?case by force
  next
    case (m_PlusS u v)
    show ?case
    proof (cases u)
      case Nil
      with m_PlusS show ?thesis by simp
    next
      case (Cons a u')
      with m_PlusS.hyps have "w = u' @ v" "matches r (c # u')" "matches (Plus r) v" by auto
      then show ?thesis by blast
    qed
  qed
next
  assume "\<exists>u v. w = u @ v \<and> matches r (c # u) \<and> (v = [] \<or> matches (Plus r) v)"
  then obtain u v where w: "w = u @ v" and r: "matches r (c # u)"
    and v: "v = [] \<or> matches (Plus r) v" by blast
  from v show "matches (Plus r) (c # w)"
  proof
    assume "v = []"
    with w r show ?thesis by (simp add: m_Plus1)
  next
    assume "matches (Plus r) v"
    with r have "matches (Plus r) ((c # u) @ v)" by (rule m_PlusS)
    with w show ?thesis by simp
  qed
qed

lemma nullable_iff: "nullable r = matches r []"
  by (induction r) (auto simp: matches_Seq matches_Plus_Nil)

lemma deriv_iff: "matches (deriv c r) w = matches r (c # w)"
proof (induction r arbitrary: w)
  case (Seq r s)
  show ?case
  proof (cases "nullable r")
    case True
    then have r0: "matches r []" by (simp add: nullable_iff)
    show ?thesis
    proof
      assume "matches (deriv c (Seq r s)) w"
      with True have "(\<exists>u v. w = u @ v \<and> matches r (c # u) \<and> matches s v) \<or> matches s (c # w)"
        by (auto simp: matches_Seq Seq.IH)
      then show "matches (Seq r s) (c # w)"
      proof
        assume "\<exists>u v. w = u @ v \<and> matches r (c # u) \<and> matches s v"
        then obtain u v where "w = u @ v" "matches r (c # u)" "matches s v" by blast
        then show ?thesis using m_Seq [of r "c # u" s v] by simp
      next
        assume "matches s (c # w)"
        with r0 show ?thesis using m_Seq [of r "[]" s "c # w"] by simp
      qed
    next
      assume "matches (Seq r s) (c # w)"
      then obtain u v where uv: "c # w = u @ v" "matches r u" "matches s v"
        by (auto simp: matches_Seq)
      show "matches (deriv c (Seq r s)) w"
      proof (cases u)
        case Nil
        with uv True show ?thesis by (simp add: Seq.IH)
      next
        case (Cons a u')
        with uv have u: "u = c # u'" and w: "w = u' @ v" by simp_all
        from uv(2) u have "matches (deriv c r) u'" by (simp add: Seq.IH)
        with uv(3) w True show ?thesis using m_Seq [of "deriv c r" u' s v] by simp
      qed
    qed
  next
    case False
    then have r0: "\<not> matches r []" by (simp add: nullable_iff)
    show ?thesis
    proof
      assume "matches (deriv c (Seq r s)) w"
      with False obtain u v where "w = u @ v" "matches r (c # u)" "matches s v"
        by (auto simp: matches_Seq Seq.IH)
      then show "matches (Seq r s) (c # w)" using m_Seq [of r "c # u" s v] by simp
    next
      assume "matches (Seq r s) (c # w)"
      then obtain u v where uv: "c # w = u @ v" "matches r u" "matches s v"
        by (auto simp: matches_Seq)
      with r0 obtain u' where "u = c # u'" "w = u' @ v" by (cases u) auto
      with uv False show "matches (deriv c (Seq r s)) w"
        using m_Seq [of "deriv c r" u' s v] by (simp add: Seq.IH)
    qed
  qed
next
  case (Plus r)
  show ?case
    by (simp add: matches_Plus_Cons matches_Seq Plus.IH)
qed auto

lemma rx_test_iff: "rx_test r s = matches r s"
proof -
  have "nullable (foldl (\<lambda>r c. deriv c r) r s) = matches r s" for r
    by (induction s arbitrary: r) (simp_all add: nullable_iff deriv_iff)
  then show ?thesis by (simp add: rx_test_def)
qed

lemma matches_lits: "matches (lits s) w = (w = s)"
  by (induction s arbitrary: w) (auto simp: matches_Seq)

lemma matches_Plus_Dot: "matches (Plus Dot) w = (w \<noteq> [] \<and> (\<forall>c\<in>set w. \<not> line_terminator c))"
proof (induction w)
  case Nil
  show ?case by (simp add: matches_Plus_Nil)
next
  case (Cons c w)
  have "matches (Plus Dot) (c # w) = (\<not> line_terminator c \<and> (w = [] \<or> matches (Plus Dot) w))"
    by (auto simp: matches_Plus_Cons)
  with Cons show ?case by auto
qed

lemma scheme_shape:
  "matches (Opt (Seq (lits (ascii ''http'')) (Seq (Opt (Lit (of_char CHR ''s''))) (lits (ascii ''://''))))) w =
     (w \<in> {[], ascii ''http://'', ascii ''https://''})"
  by (auto simp: matches_Seq matches_lits ascii_def)

lemma www_shape: "matches (Opt (lits (ascii ''www.''))) w = (w \<in> {[], ascii ''www.''})"
  by (auto simp: matches_lits)

lemma host_shape:
  "matches (Alt (lits (ascii ''youtube.com'')) (lits (ascii ''youtu.be''))) w =
     (w \<in> {ascii ''youtube.com'', ascii ''youtu.be''})"
  by (auto simp: matches_lits)

lemma youtubeRegex_shape: "matches youtubeRegex url = accepted_shape url"
proof -
  have slash: "ascii ''/'' = [of_char CHR ''/'']" by (simp add: ascii_def)
  have "matches youtubeRegex url =
        (\<exists>scheme v1. url = scheme @ v1 \<and> scheme \<in> {[], ascii ''http://'', ascii ''https://''} \<and>
          (\<exists>www v2. v1 = www @ v2 \<and> www \<in> {[], ascii ''www.''} \<and>
            (\<exists>host v3. v2 = host @ v3 \<and> host \<in> {ascii ''youtube.com'', ascii ''youtu.be''} \<and>
              (\<exists>sl rest. v3 = sl @ rest \<and> sl = ascii ''/'' \<and>
                 rest \<noteq> [] \<and> (\<forall>c\<in>set rest. \<not> line_terminator c)))))"
    unfolding youtubeRegex_def
    by (simp only: matches_Seq [of _ "Seq _ _"] matches_Seq [of _ "Plus _"]
                   scheme_shape www_shape host_shape matches_Lit matches_Plus_Dot slash)
  also have "\<dots> = accepted_shape url"
    unfolding accepted_shape_def by blast
  finally show ?thesis .
qed

lemma accepted_shape_test: "accepted_shape url = rx_test youtubeRegex url"
  by (simp add: rx_test_iff youtubeRegex_shape)

text \<open>
  Claim C6 (as amended): for an identifier that fails the accepted URL shape,
  \<open>validateUrl\<close> returns false when the identifier is not empty and throws
  \<open>URL cannot be empty or undefined\<close> when it is empty; it makes no call itself, and
  \<open>getVideoInfo\<close>, \<open>getAvailableFormats\<close>, \<open>createStreams\<close> and
  \<open>downloadVideo\<close> reject such an identifier with the world unchanged: no network
  request, no file-system call and no process before the rejection.
\<close>

theorem malformed_identifier_rejected_without_io:
  assumes "\<not> accepted_shape url"
  shows "validateUrl url =
           (if url = [] then Inl (Error ''URL cannot be empty or undefined'') else Inr False) \<and>
         getVideoInfo y url w =
           (Inl (Error (''Failed to get video info: '' @
              (if url = [] then ''URL cannot be empty or undefined'' else ''Invalid YouTube URL provided''))), w) \<and>
         getAvailableFormats y url w =
           (Inl (Error (''Failed to get video formats: '' @
              (if url = [] then ''URL cannot be empty or undefined'' else ''Invalid YouTube URL provided''))), w) \<and>
         createStreams y url so onProgress w =
           (Inl (Error (''Failed to create streams: '' @
              (if url = [] then ''URL cannot be empty or undefined'' else ''Invalid YouTube URL provided''))), w) \<and>
         downloadVideo d y env be data url out options sink w =
           ((Inl (Error (''Download failed: Failed to get video info: '' @
              (if url = [] then ''URL cannot be empty or undefined'' else ''Invalid YouTube URL provided''))), w), [])"
proof -
  from assms have no: "\<not> rx_test youtubeRegex url" by (simp add: accepted_shape_test)
  then have v: "validateUrl url =
      (if url = [] then Inl (Error ''URL cannot be empty or undefined'') else Inr False)"
    by (simp add: validateUrl_def)
  have g: "getVideoInfo y url w =
           (Inl (Error (''Failed to get video info: '' @
              (if url = [] then ''URL cannot be empty or undefined'' else ''Invalid YouTube URL provided''))), w)"
    by (simp add: getVideoInfo_def v rethrow_def describe_def)
  have f: "getAvailableFormats y url w =
           (Inl (Error (''Failed to get video formats: '' @
              (if url = [] then ''URL cannot be empty or undefined'' else ''Invalid YouTube URL provided''))), w)"
    by (simp add: getAvailableFormats_def v rethrow_def describe_def)
  have c: "createStreams y url so onProgress w =
           (Inl (Error (''Failed to create streams: '' @
              (if url = [] then ''URL cannot be empty or undefined'' else ''Invalid YouTube URL provided''))), w)"
    by (simp add: createStreams_def v rethrow_def describe_def)
  have dl: "downloadVideo d y env be data url out options sink w =
           ((Inl (Error (''Download failed: Failed to get video info: '' @
              (if url = [] then ''URL cannot be empty or undefined'' else ''Invalid YouTube URL provided''))), w), [])"
    by (simp add: downloadVideo_def g rethrow_def describe_def)
  from v g f c dl show ?thesis by (intro conjI)
qed

theorem malformed_identifier_rejected_without_io_witness:
  "\<not> accepted_shape (ascii ''https://invalid-url.com'') \<and>
   validateUrl (ascii ''https://invalid-url.com'') = Inr False \<and>
   getVideoInfo ex_ytdl (ascii ''https://invalid-url.com'') ex_world =
     (Inl (Error ''Failed to get video info: Invalid YouTube URL provided''), ex_world) \<and>
   createStreams ex_ytdl (ascii ''https://invalid-url.com'') \<lparr>so_quality = None, so_format = None\<rparr> True ex_world =
     (Inl (Error ''Failed to create streams: Invalid YouTube URL provided''), ex_world) \<and>
   downloadVideo ex_downloader ex_ytdl ex_env ex_backend ex_data (ascii ''https://invalid-url.com'')
       ex_output ex_options True ex_world =
     ((Inl (Error ''Download failed: Failed to get video info: Invalid YouTube URL provided''), ex_world), [])"
proof -
  have shape: "\<not> accepted_shape (ascii ''https://invalid-url.com'')"
    by (simp add: accepted_shape_test rx_test_def youtubeRegex_def ascii_def line_terminator_def)
  have nonempty: "ascii ''https://invalid-url.com'' \<noteq> []" by (simp add: ascii_def)
  from malformed_identifier_rejected_without_io [OF shape, of ex_ytdl ex_world
      "\<lparr>so_quality = None, so_format = None\<rparr>" True ex_downloader ex_env ex_backend ex_data
      ex_output ex_options True] shape nonempty
  show ?thesis by simp
qed

theorem empty_identifier_throws_counterexample:
  "\<not> accepted_shape [] \<and>
   validateUrl [] = Inl (Error ''URL cannot be empty or undefined'') \<and>
   validateUrl [] \<noteq> Inr False"
  by (simp add: accepted_shape_test rx_test_def youtubeRegex_def ascii_def validateUrl_def)

end
